theory Spec2Isabelle
  imports Main "HOL-Library.Product_Lexorder" "HOL-Library.Multiset"
begin

section \<open>Entity model\<close>

text \<open>
  The model follows \<^verbatim>\<open>task_manager.py\<close>. Python integers are \<open>int\<close>, Python
  strings are \<open>string\<close>. Exceptions are values of \<open>error\<close>; the two \<^verbatim>\<open>ValueError\<close>s the
  source raises itself carry the text of their f-string.
\<close>

datatype error = ValueError string | KeyError string | OverflowError | IntegrityError

datatype Priority = LOW | MEDIUM | HIGH

fun priority_value :: "Priority \<Rightarrow> int" where
  "priority_value LOW = 1"
| "priority_value MEDIUM = 2"
| "priority_value HIGH = 3"

fun priority_name :: "Priority \<Rightarrow> string" where
  "priority_name LOW = ''LOW''"
| "priority_name MEDIUM = ''MEDIUM''"
| "priority_name HIGH = ''HIGH''"

text \<open>\<^verbatim>\<open>Priority[name]\<close>: the member of that name, or \<^verbatim>\<open>KeyError\<close>.\<close>

definition priority_of_name :: "string \<Rightarrow> error + Priority" where
  "priority_of_name s =
     (if s = ''LOW'' then Inr LOW
      else if s = ''MEDIUM'' then Inr MEDIUM
      else if s = ''HIGH'' then Inr HIGH
      else Inl (KeyError s))"

subsection \<open>Calendar dates\<close>

text \<open>
  A \<^verbatim>\<open>datetime.date\<close> is modelled by its proleptic Gregorian ordinal
  (\<^verbatim>\<open>date.toordinal()\<close>: 0001-01-01 is day 1, 9999-12-31 is day 3652059). Python
  orders dates as it orders their ordinals, and \<^verbatim>\<open>date + timedelta\<close> adds to the
  ordinal and raises \<^verbatim>\<open>OverflowError\<close> outside the range. The calendar functions
  below turn an ordinal into year, month and day for the ISO text.
\<close>

type_synonym date = nat

definition MAXORDINAL :: nat where
  "MAXORDINAL = 3652059"

definition valid_date :: "date \<Rightarrow> bool" where
  "valid_date n = (1 \<le> n \<and> n \<le> MAXORDINAL)"

definition is_leap :: "nat \<Rightarrow> bool" where
  "is_leap y = (y mod 4 = 0 \<and> (y mod 100 \<noteq> 0 \<or> y mod 400 = 0))"

definition days_before_year :: "nat \<Rightarrow> nat" where
  "days_before_year y = (y - 1) * 365 + (y - 1) div 4 - (y - 1) div 100 + (y - 1) div 400"

definition days_in_month :: "nat \<Rightarrow> nat \<Rightarrow> nat" where
  "days_in_month y m =
     (if m = 2 \<and> is_leap y then 29
      else [31, 28, 31, 30, 31, 30, 31, 31, 30, 31, 30, 31] ! (m - 1))"

text \<open>Days of the year before the first of month \<open>m\<close>; \<open>m = 13\<close> gives the whole year.\<close>

definition days_before_month :: "nat \<Rightarrow> nat \<Rightarrow> nat" where
  "days_before_month y m =
     [0, 31, 59, 90, 120, 151, 181, 212, 243, 273, 304, 334, 365] ! (m - 1)
       + (if m > 2 \<and> is_leap y then 1 else 0)"

definition ymd2ord :: "nat \<Rightarrow> nat \<Rightarrow> nat \<Rightarrow> date" where
  "ymd2ord y m d = days_before_year y + days_before_month y m + d"

subsection \<open>Calendar arithmetic\<close>

lemma div_100_le_div_4: "(y::nat) div 100 \<le> y div 4"
  by (rule div_le_mono2) simp_all

lemma dvd_100_imp_dvd_4: "(100::nat) dvd y \<Longrightarrow> 4 dvd y"
proof -
  assume "100 dvd y"
  moreover have "(4::nat) dvd 100" by simp
  ultimately show "4 dvd y" by (rule dvd_trans [rotated])
qed

lemma dvd_400_imp_dvd_100: "(400::nat) dvd y \<Longrightarrow> 100 dvd y"
proof -
  assume "400 dvd y"
  moreover have "(100::nat) dvd 400" by simp
  ultimately show "100 dvd y" by (rule dvd_trans [rotated])
qed

lemma days_before_year_Suc:
  "days_before_year (Suc (Suc y)) =
     days_before_year (Suc y) + 365 + (if is_leap (Suc y) then 1 else 0)"
proof -
  define A B C where "A = y div 4" and "B = y div 100" and "C = y div 400"
  define p4 p100 p400 where "p4 \<longleftrightarrow> 4 dvd Suc y" and "p100 \<longleftrightarrow> 100 dvd Suc y"
    and "p400 \<longleftrightarrow> 400 dvd Suc y"
  have a: "Suc y div 4 = A + (if p4 then 1 else 0)"
    by (simp add: div_Suc A_def p4_def dvd_eq_mod_eq_0)
  have b: "Suc y div 100 = B + (if p100 then 1 else 0)"
    by (simp add: div_Suc B_def p100_def dvd_eq_mod_eq_0)
  have c: "Suc y div 400 = C + (if p400 then 1 else 0)"
    by (simp add: div_Suc C_def p400_def dvd_eq_mod_eq_0)
  have d: "B \<le> A" unfolding A_def B_def by (rule div_100_le_div_4)
  have e: "p100 \<Longrightarrow> p4" unfolding p4_def p100_def by (rule dvd_100_imp_dvd_4)
  have f: "p400 \<Longrightarrow> p100" unfolding p400_def p100_def by (rule dvd_400_imp_dvd_100)
  have leap: "is_leap (Suc y) = (p4 \<and> (\<not> p100 \<or> p400))"
    by (simp only: is_leap_def p4_def p100_def p400_def dvd_eq_mod_eq_0)
  have l: "days_before_year (Suc (Suc y)) =
      Suc y * 365 + (A + (if p4 then 1 else 0)) - (B + (if p100 then 1 else 0))
        + (C + (if p400 then 1 else 0))"
    by (simp only: days_before_year_def diff_Suc_1 a b c)
  have r: "days_before_year (Suc y) = y * 365 + A - B + C"
    by (simp only: days_before_year_def diff_Suc_1 A_def B_def C_def)
  show ?thesis
    unfolding l r leap using d e f by (cases p4; cases p100; cases p400; simp)
qed

lemma days_before_year_less_Suc: "days_before_year (Suc y) < days_before_year (Suc (Suc y))"
  by (simp add: days_before_year_Suc)

lemma year_from_decreases:
  "\<not> n \<le> days_before_year (Suc y) \<Longrightarrow>
   n - days_before_year (Suc (Suc y)) < n - days_before_year (Suc y)"
  using days_before_year_less_Suc [of y] by linarith

text \<open>
  The year of an ordinal: scan upwards from an estimate that is never too large, to the
  first year that ends on or after the day. The month is found the same way.
\<close>

function year_from :: "nat \<Rightarrow> nat \<Rightarrow> nat" where
  "year_from n y = (if n \<le> days_before_year (Suc y) then y else year_from n (Suc y))"
  by pat_completeness auto
termination
  apply (relation "measure (\<lambda>(n, y). n - days_before_year (Suc y))")
   apply (rule wf_measure)
  apply (simp only: in_measure split_conv)
  apply (erule year_from_decreases)
  done

declare year_from.simps [simp del]

function month_from :: "nat \<Rightarrow> nat \<Rightarrow> nat \<Rightarrow> nat" where
  "month_from y r m =
     (if 12 \<le> m \<or> r \<le> days_before_month y (Suc m) then m else month_from y r (Suc m))"
  by pat_completeness auto
termination
  by (relation "measure (\<lambda>(y, r, m). 12 - m)") auto

declare month_from.simps [simp del]

definition ord2ymd :: "date \<Rightarrow> nat \<times> nat \<times> nat" where
  "ord2ymd n =
     (let y = year_from n ((n - 1) div 366 + 1);
          r = n - days_before_year y;
          m = month_from y r 1
      in (y, m, r - days_before_month y m))"

subsection \<open>ISO-8601 text\<close>

text \<open>
  \<^verbatim>\<open>isoformat()\<close> writes zero-padded decimal fields (\<^verbatim>\<open>%04d-%02d-%02d\<close>, and
  \<^verbatim>\<open>T%02d:%02d:%02d\<close> with \<^verbatim>\<open>.%06d\<close> appended when the microsecond is not 0).
  \<^verbatim>\<open>fromisoformat()\<close> is modelled on exactly these shapes: it reads the fields back,
  checks their ranges and raises \<^verbatim>\<open>ValueError\<close> on anything else.
\<close>

definition digit_char :: "nat \<Rightarrow> char" where
  "digit_char d = char_of (48 + d)"

definition char_digit :: "char \<Rightarrow> nat option" where
  "char_digit c =
     (let k = (of_char c :: nat) in if 48 \<le> k \<and> k \<le> 57 then Some (k - 48) else None)"

fun pad_num :: "nat \<Rightarrow> nat \<Rightarrow> string" where
  "pad_num 0 n = []"
| "pad_num (Suc w) n = pad_num w (n div 10) @ [digit_char (n mod 10)]"

fun parse_digits :: "nat \<Rightarrow> string \<Rightarrow> nat option" where
  "parse_digits acc [] = Some acc"
| "parse_digits acc (c # cs) =
     (case char_digit c of None \<Rightarrow> None | Some d \<Rightarrow> parse_digits (10 * acc + d) cs)"

definition parse_num :: "string \<Rightarrow> nat option" where
  "parse_num s = parse_digits 0 s"

definition date_isoformat :: "date \<Rightarrow> string" where
  "date_isoformat n =
     (case ord2ymd n of (y, m, d) \<Rightarrow>
        pad_num 4 y @ ''-'' @ pad_num 2 m @ ''-'' @ pad_num 2 d)"

definition date_fromisoformat :: "string \<Rightarrow> error + date" where
  "date_fromisoformat s =
     (if length s = 10 \<and> s ! 4 = CHR ''-'' \<and> s ! 7 = CHR ''-'' then
        (case parse_num (take 4 s) of
           None \<Rightarrow> Inl (ValueError ''Invalid isoformat string'')
         | Some y \<Rightarrow>
        (case parse_num (take 2 (drop 5 s)) of
           None \<Rightarrow> Inl (ValueError ''Invalid isoformat string'')
         | Some m \<Rightarrow>
        (case parse_num (drop 8 s) of
           None \<Rightarrow> Inl (ValueError ''Invalid isoformat string'')
         | Some d \<Rightarrow>
             if \<not> (1 \<le> y \<and> y \<le> 9999) then Inl (ValueError ''year is out of range'')
             else if \<not> (1 \<le> m \<and> m \<le> 12) then Inl (ValueError ''month must be in 1..12'')
             else if \<not> (1 \<le> d \<and> d \<le> days_in_month y m)
               then Inl (ValueError ''day is out of range for month'')
             else Inr (ymd2ord y m d))))
      else Inl (ValueError ''Invalid isoformat string''))"

text \<open>
  A naive \<^verbatim>\<open>datetime.datetime\<close> (what \<^verbatim>\<open>datetime.now()\<close> returns): a date and a
  time of day to the microsecond.
\<close>

record datetime =
  dt_date :: date
  hour :: nat
  minute :: nat
  second :: nat
  microsecond :: nat

definition valid_datetime :: "datetime \<Rightarrow> bool" where
  "valid_datetime t =
     (valid_date (dt_date t) \<and> hour t < 24 \<and> minute t < 60 \<and> second t < 60
        \<and> microsecond t < 1000000)"

definition datetime_isoformat :: "datetime \<Rightarrow> string" where
  "datetime_isoformat t =
     date_isoformat (dt_date t) @ ''T'' @ pad_num 2 (hour t) @ '':'' @ pad_num 2 (minute t)
       @ '':'' @ pad_num 2 (second t)
       @ (if microsecond t = 0 then [] else ''.'' @ pad_num 6 (microsecond t))"

definition datetime_fromisoformat :: "string \<Rightarrow> error + datetime" where
  "datetime_fromisoformat s =
     (if length s = 19 \<or> (length s = 26 \<and> s ! 19 = CHR ''.'') then
        (case date_fromisoformat (take 10 s) of
           Inl e \<Rightarrow> Inl e
         | Inr d \<Rightarrow>
             if s ! 13 = CHR '':'' \<and> s ! 16 = CHR '':'' then
               (case parse_num (take 2 (drop 11 s)) of
                  None \<Rightarrow> Inl (ValueError ''Invalid isoformat string'')
                | Some h \<Rightarrow>
               (case parse_num (take 2 (drop 14 s)) of
                  None \<Rightarrow> Inl (ValueError ''Invalid isoformat string'')
                | Some mi \<Rightarrow>
               (case parse_num (take 2 (drop 17 s)) of
                  None \<Rightarrow> Inl (ValueError ''Invalid isoformat string'')
                | Some sec \<Rightarrow>
               (case parse_num (drop 20 s) of
                  None \<Rightarrow> Inl (ValueError ''Invalid isoformat string'')
                | Some us \<Rightarrow>
                    if \<not> h < 24 then Inl (ValueError ''hour must be in 0..23'')
                    else if \<not> mi < 60 then Inl (ValueError ''minute must be in 0..59'')
                    else if \<not> sec < 60 then Inl (ValueError ''second must be in 0..59'')
                    else Inr \<lparr>dt_date = d, hour = h, minute = mi, second = sec,
                              microsecond = us\<rparr>))))
             else Inl (ValueError ''Invalid isoformat string''))
      else Inl (ValueError ''Invalid isoformat string''))"

text \<open>
  \<^verbatim>\<open>datetime.timedelta(days=n)\<close> and \<^verbatim>\<open>date + timedelta\<close>, with the two range
  checks of the library.
\<close>

definition timedelta :: "int \<Rightarrow> error + int" where
  "timedelta days =
     (if - 999999999 \<le> days \<and> days \<le> 999999999 then Inr days else Inl OverflowError)"

definition date_add :: "date \<Rightarrow> int \<Rightarrow> error + date" where
  "date_add d days =
     (let ordinal = int d + days
      in if 0 < ordinal \<and> ordinal \<le> int MAXORDINAL then Inr (nat ordinal)
         else Inl OverflowError)"

subsection \<open>Tasks, team members and the manager\<close>

text \<open>
  \<^verbatim>\<open>Task\<close> and \<^verbatim>\<open>TeamMember\<close> are the two dataclasses; the field \<^verbatim>\<open>id\<close> is
  \<open>task_id\<close> and the member's \<^verbatim>\<open>tasks\<close> is \<open>member_tasks\<close> here.

  Python shares \<^verbatim>\<open>Task\<close> objects: \<^verbatim>\<open>add_task\<close> appends one object to
  \<^verbatim>\<open>self.tasks\<close> and to the member's list, and \<^verbatim>\<open>update_task_status\<close> and
  \<^verbatim>\<open>allocate_task\<close> write to an object in place. So the manager holds an object store
  \<open>objects\<close> (the address of an object is its index, a new object is appended), and both
  kinds of task list hold addresses. \<^verbatim>\<open>self.team_members\<close> is a dict; it is an
  association list in insertion order, the order in which \<^verbatim>\<open>.values()\<close> iterates.
  The two tables of the SQLite file are the lists of rows \<open>db_tasks\<close> and
  \<open>db_team_members\<close>, as last committed, in the order of their insertion.
\<close>

record Task =
  task_id :: int
  title :: string
  description :: string
  deadline :: date
  priority :: Priority
  assigned_to :: string
  status :: string
  created_at :: datetime

record TeamMember =
  name :: string
  email :: string
  member_tasks :: "nat list"
  workload :: int

type_synonym task_row = "int \<times> string \<times> string \<times> string \<times> string \<times> string \<times> string \<times> string"

type_synonym member_row = "string \<times> string \<times> int"

record TaskManager =
  objects :: "Task list"
  tasks :: "nat list"
  team_members :: "(string \<times> TeamMember) list"
  db_tasks :: "task_row list"
  db_team_members :: "member_row list"

subsection \<open>Python built-ins\<close>

text \<open>\<^verbatim>\<open>k in d\<close>, \<^verbatim>\<open>d[k] = v\<close> and an in-place change of the object \<^verbatim>\<open>d[k]\<close>.\<close>

definition dict_contains :: "'k \<Rightarrow> ('k \<times> 'v) list \<Rightarrow> bool" where
  "dict_contains k d = (map_of d k \<noteq> None)"

fun dict_set :: "'k \<Rightarrow> 'v \<Rightarrow> ('k \<times> 'v) list \<Rightarrow> ('k \<times> 'v) list" where
  "dict_set k v [] = [(k, v)]"
| "dict_set k v ((k', v') # d) = (if k' = k then (k, v) # d else (k', v') # dict_set k v d)"

fun dict_modify :: "'k \<Rightarrow> ('v \<Rightarrow> 'v) \<Rightarrow> ('k \<times> 'v) list \<Rightarrow> ('k \<times> 'v) list" where
  "dict_modify k f [] = []"
| "dict_modify k f ((k', v) # d) =
     (if k' = k then (k', f v) # d else (k', v) # dict_modify k f d)"

text \<open>\<^verbatim>\<open>max(xs, default=d)\<close>.\<close>

fun py_max :: "int \<Rightarrow> int list \<Rightarrow> int" where
  "py_max d [] = d"
| "py_max d (x # xs) = fold max xs x"

text \<open>
  \<^verbatim>\<open>min(xs, key=...)\<close> keeps the first of the smallest items: the scan replaces its
  candidate only by a strictly smaller one. \<open>py_min_index\<close> gives the position of the
  item \<^verbatim>\<open>min\<close> returns, and \<open>None\<close> where \<^verbatim>\<open>min\<close> raises \<^verbatim>\<open>ValueError\<close>.
\<close>

fun min_scan :: "nat \<Rightarrow> int \<Rightarrow> nat \<Rightarrow> int list \<Rightarrow> nat" where
  "min_scan best bv i [] = best"
| "min_scan best bv i (v # vs) =
     (if v < bv then min_scan i v (Suc i) vs else min_scan best bv (Suc i) vs)"

fun py_min_index :: "int list \<Rightarrow> nat option" where
  "py_min_index [] = None"
| "py_min_index (v # vs) = Some (min_scan 0 v 1 vs)"

text \<open>
  \<^verbatim>\<open>sorted(xs, key=..., reverse=True)\<close>: the sort is stable, and with
  \<^verbatim>\<open>reverse=True\<close> items of equal key keep their order too (the list is reversed,
  sorted, and reversed again).
\<close>

definition py_sorted_reverse :: "('a \<Rightarrow> 'k::linorder) \<Rightarrow> 'a list \<Rightarrow> 'a list" where
  "py_sorted_reverse key xs = rev (sort_key key (rev xs))"

subsection \<open>Persistence\<close>

text \<open>
  \<^verbatim>\<open>save_data\<close> deletes all rows and inserts one row per task of \<^verbatim>\<open>self.tasks\<close>
  and per member, then commits. \<open>id\<close> and \<open>name\<close> are primary keys: an insert that
  repeats one raises \<^verbatim>\<open>sqlite3.IntegrityError\<close> before the commit, and the committed
  tables stay as they were. Integers are taken to fit SQLite's 64 bits.

  \<^verbatim>\<open>SELECT * FROM tasks\<close> scans the table in the order of its row ids, and the
  column \<^verbatim>\<open>id INTEGER PRIMARY KEY\<close> is the row id: the task rows come back in
  ascending \<open>id\<close>, whatever the order of their insertion. The primary key of
  \<^verbatim>\<open>team_members\<close> is a text column, so its row ids are the ones the inserts into
  the emptied table were given, 1, 2, ...: \<^verbatim>\<open>SELECT * FROM team_members\<close> returns
  the member rows in insertion order.
\<close>

definition task_to_row :: "Task \<Rightarrow> task_row" where
  "task_to_row t =
     (task_id t, title t, description t, date_isoformat (deadline t),
      priority_name (priority t), assigned_to t, status t, datetime_isoformat (created_at t))"

definition member_to_row :: "TeamMember \<Rightarrow> member_row" where
  "member_to_row m = (name m, email m, workload m)"

definition save_data :: "TaskManager \<Rightarrow> (error + unit) \<times> TaskManager" where
  "save_data s =
     (let task_rows = map (\<lambda>r. task_to_row (objects s ! r)) (tasks s);
          member_rows = map (\<lambda>(k, m). member_to_row m) (team_members s)
      in if distinct (map fst task_rows) \<and> distinct (map fst member_rows)
         then (Inr (), s\<lparr>db_tasks := task_rows, db_team_members := member_rows\<rparr>)
         else (Inl IntegrityError, s))"

fun row_to_task :: "task_row \<Rightarrow> error + Task" where
  "row_to_task (r0, r1, r2, r3, r4, r5, r6, r7) =
     (case date_fromisoformat r3 of
        Inl e \<Rightarrow> Inl e
      | Inr dl \<Rightarrow>
     (case priority_of_name r4 of
        Inl e \<Rightarrow> Inl e
      | Inr pr \<Rightarrow>
     (case datetime_fromisoformat r7 of
        Inl e \<Rightarrow> Inl e
      | Inr cr \<Rightarrow>
          Inr \<lparr>task_id = r0, title = r1, description = r2, deadline = dl, priority = pr,
               assigned_to = r5, status = r6, created_at = cr\<rparr>)))"

fun load_tasks :: "task_row list \<Rightarrow> TaskManager \<Rightarrow> (error + unit) \<times> TaskManager" where
  "load_tasks [] s = (Inr (), s)"
| "load_tasks (row # rows) s =
     (case row_to_task row of
        Inl e \<Rightarrow> (Inl e, s)
      | Inr task \<Rightarrow>
          load_tasks rows
            (s\<lparr>objects := objects s @ [task], tasks := tasks s @ [length (objects s)]\<rparr>))"

fun load_members :: "member_row list \<Rightarrow> TaskManager \<Rightarrow> TaskManager" where
  "load_members [] s = s"
| "load_members ((r0, r1, r2) # rows) s =
     load_members rows
       (s\<lparr>team_members :=
            dict_set r0 \<lparr>name = r0, email = r1, member_tasks = [], workload = r2\<rparr>
              (team_members s)\<rparr>)"

definition select_tasks :: "TaskManager \<Rightarrow> task_row list" where
  "select_tasks s = sort_key (\<lambda>row. fst row) (db_tasks s)"

definition select_team_members :: "TaskManager \<Rightarrow> member_row list" where
  "select_team_members s = db_team_members s"

definition load_data :: "TaskManager \<Rightarrow> (error + unit) \<times> TaskManager" where
  "load_data s =
     (case load_tasks (select_tasks s) (s\<lparr>tasks := [], team_members := []\<rparr>) of
        (Inl e, s1) \<Rightarrow> (Inl e, s1)
      | (Inr u, s1) \<Rightarrow> (Inr (), load_members (select_team_members s1) s1))"

subsection \<open>The operations of \<^verbatim>\<open>TaskManager\<close>\<close>

text \<open>
  Every operation takes the manager and returns its result, or the exception it raises,
  together with the manager as the call leaves it. The clock is a parameter:
  \<open>now\<close> is what \<^verbatim>\<open>datetime.datetime.now()\<close> returns during the call, \<open>today\<close>
  what \<^verbatim>\<open>datetime.date.today()\<close> returns. \<^verbatim>\<open>add_task\<close> returns the address of the
  new \<^verbatim>\<open>Task\<close>.
\<close>

definition add_task ::
  "datetime \<Rightarrow> string \<Rightarrow> string \<Rightarrow> date \<Rightarrow> Priority \<Rightarrow> string \<Rightarrow> TaskManager
     \<Rightarrow> (error + nat) \<times> TaskManager" where
  "add_task now ti de dl pr member s =
     (let new_id = py_max 0 (map (\<lambda>r. task_id (objects s ! r)) (tasks s)) + 1;
          task = \<lparr>task_id = new_id, title = ti, description = de, deadline = dl,
                  priority = pr, assigned_to = member, status = ''Not Started'',
                  created_at = now\<rparr>;
          r = length (objects s);
          s1 = s\<lparr>objects := objects s @ [task], tasks := tasks s @ [r]\<rparr>
      in if \<not> dict_contains member (team_members s1)
         then (Inl (ValueError (''Team member '' @ member @ '' does not exist'')), s1)
         else
           let s2 = s1\<lparr>team_members :=
                     dict_modify member (\<lambda>m. m\<lparr>member_tasks := member_tasks m @ [r]\<rparr>)
                       (team_members s1)\<rparr>;
               s3 = s2\<lparr>team_members :=
                     dict_modify member (\<lambda>m. m\<lparr>workload := workload m + priority_value pr\<rparr>)
                       (team_members s2)\<rparr>
           in case save_data s3 of
                (Inl e, s4) \<Rightarrow> (Inl e, s4)
              | (Inr u, s4) \<Rightarrow> (Inr r, s4))"

fun find_task :: "Task list \<Rightarrow> int \<Rightarrow> nat list \<Rightarrow> nat option" where
  "find_task objs tid [] = None"
| "find_task objs tid (r # rs) =
     (if task_id (objs ! r) = tid then Some r else find_task objs tid rs)"

definition update_task_status ::
  "int \<Rightarrow> string \<Rightarrow> TaskManager \<Rightarrow> (error + unit) \<times> TaskManager" where
  "update_task_status tid new_status s =
     (case find_task (objects s) tid (tasks s) of
        None \<Rightarrow> (Inr (), s)
      | Some r \<Rightarrow>
          save_data (s\<lparr>objects := (objects s)[r := (objects s ! r)\<lparr>status := new_status\<rparr>]\<rparr>))"

definition get_upcoming_deadlines :: "date \<Rightarrow> int \<Rightarrow> TaskManager \<Rightarrow> error + nat list" where
  "get_upcoming_deadlines today days s =
     (case timedelta days of
        Inl e \<Rightarrow> Inl e
      | Inr td \<Rightarrow>
     (case date_add today td of
        Inl e \<Rightarrow> Inl e
      | Inr limit \<Rightarrow>
          Inr (filter (\<lambda>r. today \<le> deadline (objects s ! r) \<and> deadline (objects s ! r) \<le> limit)
                 (tasks s))))"

definition todo_key :: "TaskManager \<Rightarrow> nat \<Rightarrow> int \<times> date" where
  "todo_key s r = (priority_value (priority (objects s ! r)), deadline (objects s ! r))"

definition generate_to_do_list :: "string \<Rightarrow> TaskManager \<Rightarrow> nat list" where
  "generate_to_do_list member s =
     (case map_of (team_members s) member of
        Some m \<Rightarrow> py_sorted_reverse (todo_key s) (member_tasks m)
      | None \<Rightarrow> [])"

definition allocate_task :: "nat \<Rightarrow> TaskManager \<Rightarrow> (error + unit) \<times> TaskManager" where
  "allocate_task r s =
     (case py_min_index (map (\<lambda>(k, m). workload m) (team_members s)) of
        None \<Rightarrow> (Inl (ValueError ''min() arg is an empty sequence''), s)
      | Some i \<Rightarrow>
          let (k, m) = team_members s ! i;
              s1 = s\<lparr>objects := (objects s)[r := (objects s ! r)\<lparr>assigned_to := name m\<rparr>]\<rparr>;
              m1 = m\<lparr>member_tasks := member_tasks m @ [r]\<rparr>;
              m2 = m1\<lparr>workload := workload m1 + priority_value (priority (objects s1 ! r))\<rparr>
          in save_data (s1\<lparr>team_members := (team_members s1)[i := (k, m2)]\<rparr>))"

definition add_team_member ::
  "string \<Rightarrow> string \<Rightarrow> TaskManager \<Rightarrow> (error + unit) \<times> TaskManager" where
  "add_team_member nm em s =
     (if \<not> dict_contains nm (team_members s)
      then save_data
             (s\<lparr>team_members :=
                  dict_set nm \<lparr>name = nm, email = em, member_tasks = [], workload = 0\<rparr>
                    (team_members s)\<rparr>)
      else (Inl (ValueError (''Team member '' @ nm @ '' already exists'')), s))"

subsection \<open>Well-formed managers and example data\<close>

text \<open>
  What Python and the two primary keys guarantee of a manager: every address in a task
  list is the address of an object; the dict keys are distinct and every member is
  stored under its own name; the ids of \<^verbatim>\<open>self.tasks\<close> are distinct.
\<close>

definition refs_ok :: "TaskManager \<Rightarrow> bool" where
  "refs_ok s =
     (list_all (\<lambda>r. r < length (objects s)) (tasks s)
      \<and> list_all (\<lambda>(k, m). list_all (\<lambda>r. r < length (objects s)) (member_tasks m))
            (team_members s))"

definition members_ok :: "TaskManager \<Rightarrow> bool" where
  "members_ok s =
     (distinct (map fst (team_members s))
      \<and> list_all (\<lambda>(k, m). name m = k) (team_members s))"

definition ids_distinct :: "TaskManager \<Rightarrow> bool" where
  "ids_distinct s = distinct (map (\<lambda>r. task_id (objects s ! r)) (tasks s))"

definition mk_task ::
  "int \<Rightarrow> string \<Rightarrow> date \<Rightarrow> Priority \<Rightarrow> string \<Rightarrow> Task" where
  "mk_task i ti dl pr member =
     \<lparr>task_id = i, title = ti, description = ''to do'', deadline = dl, priority = pr,
      assigned_to = member, status = ''Not Started'',
      created_at = \<lparr>dt_date = 738886, hour = 9, minute = 30, second = 0, microsecond = 0\<rparr>\<rparr>"

text \<open>
  An example: Alice holds tasks 1 (MEDIUM, 2024-01-10), 2 (HIGH, 2024-01-05) and
  3 (HIGH, 2024-01-20); Bob holds none. Ordinal 738895 is 2024-01-10. A fourth
  \<^verbatim>\<open>Task\<close> object exists and is in no list.
\<close>

definition example_manager :: TaskManager where
  "example_manager =
     \<lparr>objects =
        [mk_task 1 ''report'' 738895 MEDIUM ''Alice'',
         mk_task 2 ''review'' 738890 HIGH ''Alice'',
         mk_task 3 ''release'' 738905 HIGH ''Alice'',
         mk_task 7 ''triage'' 738896 LOW ''nobody''],
      tasks = [0, 1, 2],
      team_members =
        [(''Alice'', \<lparr>name = ''Alice'', email = ''alice@example.org'',
                      member_tasks = [0, 1, 2], workload = 8\<rparr>),
         (''Bob'', \<lparr>name = ''Bob'', email = ''bob@example.org'',
                    member_tasks = [], workload = 0\<rparr>)],
      db_tasks = [],
      db_team_members = []\<rparr>"

definition empty_manager :: TaskManager where
  "empty_manager =
     \<lparr>objects = [], tasks = [], team_members = [], db_tasks = [], db_team_members = []\<rparr>"

definition example_now :: datetime where
  "example_now = \<lparr>dt_date = 738887, hour = 14, minute = 5, second = 9, microsecond = 250000\<rparr>"

subsection \<open>Workloads, ids and sequences of calls\<close>

text \<open>
  The workload invariant of the data model: every member's \<open>workload\<close> is the sum of
  \<^verbatim>\<open>priority.value\<close> over the member's task list.
\<close>

definition member_load :: "Task list \<Rightarrow> TeamMember \<Rightarrow> int" where
  "member_load objs m = sum_list (map (\<lambda>r. priority_value (priority (objs ! r))) (member_tasks m))"

definition workload_ok :: "TaskManager \<Rightarrow> bool" where
  "workload_ok s = list_all (\<lambda>(k, m). workload m = member_load (objects s) m) (team_members s)"

text \<open>
  The managers that a sequence of \<^verbatim>\<open>add_task\<close> and \<^verbatim>\<open>allocate_task\<close> calls
  reaches from \<open>s\<close>. A call that raises counts too: the manager is left as the call
  left it. Between the calls the caller may construct \<^verbatim>\<open>Task\<close> objects, and
  \<^verbatim>\<open>allocate_task\<close> takes any object that exists.
\<close>

inductive reachable :: "TaskManager \<Rightarrow> TaskManager \<Rightarrow> bool" for s :: TaskManager where
  start: "reachable s s"
| construct: "reachable s t \<Longrightarrow> reachable s (t\<lparr>objects := objects t @ [task]\<rparr>)"
| add: "reachable s t \<Longrightarrow> reachable s (snd (add_task now ti de dl pr member t))"
| allocate:
    "reachable s t \<Longrightarrow> r < length (objects t) \<Longrightarrow> reachable s (snd (allocate_task r t))"

text \<open>The ids of \<^verbatim>\<open>self.tasks\<close>, in list order.\<close>

definition task_ids :: "TaskManager \<Rightarrow> int list" where
  "task_ids s = map (\<lambda>r. task_id (objects s ! r)) (tasks s)"

text \<open>
  A sequence of \<^verbatim>\<open>add_task\<close> calls, each given by the clock and its five arguments;
  the run returns the created tasks, and stops at the first call that raises.
\<close>

type_synonym add_task_call = "datetime \<times> string \<times> string \<times> date \<times> Priority \<times> string"

fun add_tasks :: "add_task_call list \<Rightarrow> TaskManager \<Rightarrow> (error + nat list) \<times> TaskManager" where
  "add_tasks [] s = (Inr [], s)"
| "add_tasks ((now, ti, de, dl, pr, member) # calls) s =
     (case add_task now ti de dl pr member s of
        (Inl e, s1) \<Rightarrow> (Inl e, s1)
      | (Inr r, s1) \<Rightarrow>
          (case add_tasks calls s1 of
             (Inl e, s2) \<Rightarrow> (Inl e, s2)
           | (Inr rs, s2) \<Rightarrow> (Inr (r # rs), s2)))"

text \<open>The ids of the tasks that a run of \<^verbatim>\<open>add_task\<close> calls returns, in call order.\<close>

definition issued_ids :: "add_task_call list \<Rightarrow> TaskManager \<Rightarrow> int list" where
  "issued_ids calls s =
     (case add_tasks calls s of
        (Inl e, s') \<Rightarrow> []
      | (Inr rs, s') \<Rightarrow> map (\<lambda>r. task_id (objects s' ! r)) rs)"

text \<open>A manager with two members and no task yet, as after a first start.\<close>

definition team_manager :: TaskManager where
  "team_manager =
     empty_manager
       \<lparr>team_members :=
          [(''Alice'', \<lparr>name = ''Alice'', email = ''alice@example.org'',
                        member_tasks = [], workload = 0\<rparr>),
           (''Bob'', \<lparr>name = ''Bob'', email = ''bob@example.org'',
                      member_tasks = [], workload = 0\<rparr>)]\<rparr>"


section \<open>Properties of the calendar and of the ISO text\<close>

lemma days_before_year_1: "days_before_year (Suc 0) = 0"
  by (simp add: days_before_year_def)

lemma days_before_year_bounds:
  "365 * y \<le> days_before_year (Suc y) \<and> days_before_year (Suc y) \<le> 366 * y"
proof (induction y)
  case 0
  show ?case by (simp add: days_before_year_1)
next
  case (Suc y)
  then show ?case by (simp only: days_before_year_Suc) (simp split: if_splits)
qed

lemma days_before_year_mono: "a \<le> b \<Longrightarrow> days_before_year (Suc a) \<le> days_before_year (Suc b)"
proof (induction b)
  case 0
  then show ?case by simp
next
  case (Suc b)
  show ?case
  proof (cases "a = Suc b")
    case True
    then show ?thesis by simp
  next
    case False
    with Suc.prems have "a \<le> b" by simp
    then have "days_before_year (Suc a) \<le> days_before_year (Suc b)" by (rule Suc.IH)
    also have "\<dots> \<le> days_before_year (Suc (Suc b))"
      using days_before_year_less_Suc [of b] by simp
    finally show ?thesis .
  qed
qed

lemma year_from_correct:
  "days_before_year y0 < n \<Longrightarrow>
   y0 \<le> year_from n y0 \<and> days_before_year (year_from n y0) < n
     \<and> n \<le> days_before_year (Suc (year_from n y0))"
proof (induction n y0 rule: year_from.induct)
  case (1 n y)
  show ?case
  proof (cases "n \<le> days_before_year (Suc y)")
    case True
    then have "year_from n y = y" by (subst year_from.simps) simp
    with True "1.prems" show ?thesis by simp
  next
    case False
    then have eq: "year_from n y = year_from n (Suc y)" by (subst year_from.simps) simp
    from False have "days_before_year (Suc y) < n" by simp
    from "1.IH" [OF False this] show ?thesis unfolding eq by simp
  qed
qed

lemma month_cases:
  "1 \<le> m \<Longrightarrow> m \<le> (12::nat) \<Longrightarrow>
   m = 1 \<or> m = 2 \<or> m = 3 \<or> m = 4 \<or> m = 5 \<or> m = 6 \<or> m = 7 \<or> m = 8 \<or> m = 9 \<or> m = 10
     \<or> m = 11 \<or> m = 12"
  by presburger

lemma days_before_month_Suc:
  assumes "1 \<le> m" and "m \<le> 12"
  shows "days_before_month y (Suc m) = days_before_month y m + days_in_month y m"
  using month_cases [OF assms]
  by (elim disjE) (simp_all add: days_before_month_def days_in_month_def)

lemma days_before_month_1: "days_before_month y (Suc 0) = 0"
  by (simp add: days_before_month_def)

lemma days_before_month_13: "days_before_month y 13 = 365 + (if is_leap y then 1 else 0)"
  by (simp add: days_before_month_def)

lemma month_from_correct:
  "1 \<le> m0 \<Longrightarrow> m0 \<le> 12 \<Longrightarrow> days_before_month y m0 < r \<Longrightarrow> r \<le> days_before_month y 13 \<Longrightarrow>
   m0 \<le> month_from y r m0 \<and> month_from y r m0 \<le> 12
     \<and> days_before_month y (month_from y r m0) < r
     \<and> r \<le> days_before_month y (Suc (month_from y r m0))"
proof (induction y r m0 rule: month_from.induct)
  case (1 y r m)
  show ?case
  proof (cases "12 \<le> m \<or> r \<le> days_before_month y (Suc m)")
    case True
    then have eq: "month_from y r m = m" by (subst month_from.simps) simp
    from True "1.prems" have "r \<le> days_before_month y (Suc m)"
      by (cases "12 \<le> m") auto
    with "1.prems" show ?thesis unfolding eq by simp
  next
    case False
    then have eq: "month_from y r m = month_from y r (Suc m)"
      by (subst month_from.simps) simp
    from False have "1 \<le> Suc m" "Suc m \<le> 12" "days_before_month y (Suc m) < r" by simp_all
    from "1.IH" [OF False this "1.prems"(4)] show ?thesis unfolding eq by simp
  qed
qed

lemma days_before_year_10000: "days_before_year (Suc 9999) = MAXORDINAL"
  by (simp add: days_before_year_def MAXORDINAL_def)

lemma ord2ymd_correct:
  assumes n: "valid_date n" and res: "ord2ymd n = (y, m, d)"
  shows "1 \<le> y \<and> y \<le> 9999 \<and> 1 \<le> m \<and> m \<le> 12 \<and> 1 \<le> d \<and> d \<le> days_in_month y m
    \<and> ymd2ord y m d = n"
proof -
  define q where "q = (n - 1) div 366"
  define r where "r = n - days_before_year y"
  from n have n1: "1 \<le> n" and nmax: "n \<le> MAXORDINAL" by (simp_all add: valid_date_def)
  from res have y: "y = year_from n (Suc q)"
    and m: "m = month_from y r 1" and d: "d = r - days_before_month y m"
    by (auto simp: ord2ymd_def Let_def q_def r_def)
  have "q * 366 \<le> n - 1" unfolding q_def by (rule div_times_less_eq_dividend)
  moreover have "days_before_year (Suc q) \<le> 366 * q"
    using days_before_year_bounds [of q] by simp
  ultimately have "days_before_year (Suc q) < n" using n1 by linarith
  from year_from_correct [OF this]
  have yq: "Suc q \<le> y" and lo: "days_before_year y < n" and hi: "n \<le> days_before_year (Suc y)"
    unfolding y by simp_all
  from yq obtain y' where y': "y = Suc y'" by (cases y) simp_all
  have ymax: "y \<le> 9999"
  proof (rule ccontr)
    assume "\<not> y \<le> 9999"
    then have "9999 \<le> y'" using y' by simp
    then have "days_before_year (Suc 9999) \<le> days_before_year (Suc y')"
      by (rule days_before_year_mono)
    with lo nmax show False unfolding y' days_before_year_10000 by simp
  qed
  have len: "days_before_year (Suc y) = days_before_year y + days_before_month y 13"
    unfolding y' by (simp only: days_before_year_Suc days_before_month_13)
  have r1: "days_before_month y 1 < r" and r2: "r \<le> days_before_month y 13"
    using lo hi len by (simp_all add: r_def days_before_month_1)
  from month_from_correct [OF _ _ r1 r2]
  have m1: "1 \<le> m" and m12: "m \<le> 12" and mlo: "days_before_month y m < r"
    and mhi: "r \<le> days_before_month y (Suc m)"
    unfolding m by simp_all
  have "d \<le> days_in_month y m"
    using mhi unfolding d days_before_month_Suc [OF m1 m12] by simp
  moreover have "1 \<le> d" using mlo unfolding d by simp
  moreover have "ymd2ord y m d = n"
    using mlo lo unfolding ymd2ord_def d r_def by simp
  ultimately show ?thesis using yq ymax m1 m12 by simp
qed

lemma char_digit_digit_char: "d < 10 \<Longrightarrow> char_digit (digit_char d) = Some d"
  by (simp add: char_digit_def digit_char_def)

lemma length_pad_num: "length (pad_num w n) = w"
  by (induction w arbitrary: n) simp_all

lemma parse_digits_append:
  "parse_digits acc (xs @ ys) =
     (case parse_digits acc xs of None \<Rightarrow> None | Some a \<Rightarrow> parse_digits a ys)"
  by (induction xs arbitrary: acc) (simp_all split: option.splits)

lemma parse_digits_pad_num:
  "n < 10 ^ w \<Longrightarrow> parse_digits acc (pad_num w n) = Some (acc * 10 ^ w + n)"
proof (induction w arbitrary: n)
  case 0
  then show ?case by simp
next
  case (Suc w)
  define q r where "q = n div 10" and "r = n mod 10"
  have n: "n = 10 * q + r" and r: "r < 10" by (simp_all add: q_def r_def)
  from Suc.prems have "q < 10 ^ w" unfolding n using r by simp
  then have "parse_digits acc (pad_num w q) = Some (acc * 10 ^ w + q)" by (rule Suc.IH)
  then have "parse_digits acc (pad_num (Suc w) n)
      = Some (10 * (acc * 10 ^ w + q) + r)"
    using r by (simp add: parse_digits_append char_digit_digit_char q_def [symmetric]
        r_def [symmetric])
  then show ?case unfolding n by (simp add: algebra_simps)
qed

lemma parse_num_pad_num: "n < 10 ^ w \<Longrightarrow> parse_num (pad_num w n) = Some n"
  by (simp add: parse_num_def parse_digits_pad_num)

lemma days_in_month_le_31: "1 \<le> m \<Longrightarrow> m \<le> 12 \<Longrightarrow> days_in_month y m \<le> 31"
  by (drule (1) month_cases, elim disjE) (simp_all add: days_in_month_def)

lemma length_date_isoformat: "length (date_isoformat n) = 10"
  by (simp add: date_isoformat_def length_pad_num split: prod.splits)

lemma date_fromisoformat_pad:
  assumes "1 \<le> y" "y \<le> 9999" "1 \<le> m" "m \<le> 12" "1 \<le> d" "d \<le> days_in_month y m"
  shows "date_fromisoformat (pad_num 4 y @ ''-'' @ pad_num 2 m @ ''-'' @ pad_num 2 d)
    = Inr (ymd2ord y m d)"
proof -
  from assms have "d \<le> 31" using days_in_month_le_31 [of m y] by simp
  with assms have "y < 10 ^ 4" "m < 10 ^ 2" "d < 10 ^ 2" by simp_all
  then have p: "parse_num (pad_num 4 y) = Some y" "parse_num (pad_num 2 m) = Some m"
    "parse_num (pad_num 2 d) = Some d"
    by (simp_all only: parse_num_pad_num)
  show ?thesis
    unfolding date_fromisoformat_def
    using assms by (simp add: length_pad_num nth_append p)
qed

lemma date_roundtrip: "valid_date n \<Longrightarrow> date_fromisoformat (date_isoformat n) = Inr n"
proof -
  assume n: "valid_date n"
  obtain y m d where r: "ord2ymd n = (y, m, d)" by (cases "ord2ymd n") auto
  from ord2ymd_correct [OF n r]
  have "date_fromisoformat (pad_num 4 y @ ''-'' @ pad_num 2 m @ ''-'' @ pad_num 2 d) = Inr n"
    using date_fromisoformat_pad [of y m d] by simp
  then show ?thesis by (simp add: date_isoformat_def r)
qed

lemma priority_roundtrip: "priority_of_name (priority_name p) = Inr p"
  by (cases p) (simp_all add: priority_of_name_def)

lemma datetime_roundtrip:
  assumes "valid_datetime t"
  shows "datetime_fromisoformat (datetime_isoformat t) = Inr t"
proof -
  define D where "D = date_isoformat (dt_date t)"
  have lenD: "length D = 10" unfolding D_def by (rule length_date_isoformat)
  have D: "date_fromisoformat D = Inr (dt_date t)"
    unfolding D_def using assms by (simp add: valid_datetime_def date_roundtrip)
  from assms have "hour t < 10 ^ 2" "minute t < 10 ^ 2" "second t < 10 ^ 2"
    "microsecond t < 10 ^ 6"
    by (simp_all add: valid_datetime_def)
  then have p: "parse_num (pad_num 2 (hour t)) = Some (hour t)"
    "parse_num (pad_num 2 (minute t)) = Some (minute t)"
    "parse_num (pad_num 2 (second t)) = Some (second t)"
    "parse_num (pad_num 6 (microsecond t)) = Some (microsecond t)"
    by (simp_all only: parse_num_pad_num)
  have e: "parse_num [] = Some 0" by (simp add: parse_num_def)
  from assms have rng: "hour t < 24" "minute t < 60" "second t < 60"
    by (simp_all add: valid_datetime_def)
  show ?thesis
    unfolding datetime_fromisoformat_def datetime_isoformat_def D_def [symmetric]
    by (simp add: length_pad_num lenD nth_append D p e rng)
qed

section \<open>Properties of the operations\<close>

subsection \<open>Dicts and persistence\<close>

lemma dict_set_new: "map_of d k = None \<Longrightarrow> dict_set k v d = d @ [(k, v)]"
  by (induction d) (auto split: if_splits)

lemma save_data_objects: "objects (snd (save_data s)) = objects s"
  by (simp add: save_data_def Let_def)

lemma save_data_tasks: "tasks (snd (save_data s)) = tasks s"
  by (simp add: save_data_def Let_def)

lemma save_data_team_members: "team_members (snd (save_data s)) = team_members s"
  by (simp add: save_data_def Let_def)

lemma member_rows_keys:
  "list_all (\<lambda>(k, m). name m = k) d \<Longrightarrow> map fst (map (\<lambda>(k, m). member_to_row m) d) = map fst d"
  by (induction d) (auto simp: member_to_row_def)

lemma save_data_ok:
  assumes "members_ok s" and "ids_distinct s"
  shows "save_data s =
    (Inr (), s\<lparr>db_tasks := map (\<lambda>r. task_to_row (objects s ! r)) (tasks s),
               db_team_members := map (\<lambda>(k, m). member_to_row m) (team_members s)\<rparr>)"
proof -
  have "map fst (map (\<lambda>r. task_to_row (objects s ! r)) (tasks s))
      = map (\<lambda>r. task_id (objects s ! r)) (tasks s)"
    by (simp add: task_to_row_def)
  moreover have "map fst (map (\<lambda>(k, m). member_to_row m) (team_members s))
      = map fst (team_members s)"
    by (rule member_rows_keys) (use assms(1) in \<open>simp add: members_ok_def\<close>)
  ultimately show ?thesis
    using assms unfolding save_data_def Let_def members_ok_def ids_distinct_def
    by (simp only: simp_thms if_True)
qed

subsection \<open>Registering a team member\<close>

text \<open>
  Claim C10. \<^verbatim>\<open>add_team_member(name, email)\<close> with a name that is not registered
  appends a \<^verbatim>\<open>TeamMember\<close> with that name and email, workload 0 and no tasks, and
  changes no task; in a well-formed manager it returns normally. With a name that is
  registered it raises the "already exists" \<^verbatim>\<open>ValueError\<close> and the manager, its
  member dict included, is as before.
\<close>

theorem add_team_member_registers_or_rejects:
  "(\<not> dict_contains nm (team_members s) \<longrightarrow>
      team_members (snd (add_team_member nm em s))
        = team_members s @ [(nm, \<lparr>name = nm, email = em, member_tasks = [], workload = 0\<rparr>)]
      \<and> objects (snd (add_team_member nm em s)) = objects s
      \<and> tasks (snd (add_team_member nm em s)) = tasks s
      \<and> (members_ok s \<and> ids_distinct s \<longrightarrow> fst (add_team_member nm em s) = Inr ()))
   \<and> (dict_contains nm (team_members s) \<longrightarrow>
      add_team_member nm em s
        = (Inl (ValueError (''Team member '' @ nm @ '' already exists'')), s))"
proof (cases "dict_contains nm (team_members s)")
  case True
  then show ?thesis by (simp add: add_team_member_def)
next
  case False
  define s' where "s' = s\<lparr>team_members :=
    team_members s @ [(nm, \<lparr>name = nm, email = em, member_tasks = [], workload = 0\<rparr>)]\<rparr>"
  from False have none: "map_of (team_members s) nm = None" by (simp add: dict_contains_def)
  then have eq: "add_team_member nm em s = save_data s'"
    using False by (simp add: add_team_member_def dict_set_new s'_def)
  have "fst (save_data s') = Inr ()" if "members_ok s" "ids_distinct s"
  proof -
    from none have "nm \<notin> fst ` set (team_members s)" by (simp add: map_of_eq_None_iff)
    with that(1) have "members_ok s'" by (simp add: members_ok_def s'_def)
    moreover from that(2) have "ids_distinct s'" by (simp add: ids_distinct_def s'_def)
    ultimately show ?thesis by (simp add: save_data_ok)
  qed
  then show ?thesis
    using False unfolding eq
    by (simp add: save_data_objects save_data_tasks save_data_team_members s'_def)
qed

theorem add_team_member_registers_or_rejects_witness:
  "\<not> dict_contains ''Carol'' (team_members example_manager)
   \<and> members_ok example_manager \<and> ids_distinct example_manager
   \<and> fst (add_team_member ''Carol'' ''carol@example.org'' example_manager) = Inr ()
   \<and> map fst (team_members (snd (add_team_member ''Carol'' ''carol@example.org'' example_manager)))
       = [''Alice'', ''Bob'', ''Carol'']
   \<and> dict_contains ''Bob'' (team_members example_manager)
   \<and> add_team_member ''Bob'' ''bob@example.net'' example_manager
       = (Inl (ValueError ''Team member Bob already exists''), example_manager)"
proof -
  have a: "\<not> dict_contains ''Carol'' (team_members example_manager)"
    and b: "dict_contains ''Bob'' (team_members example_manager)"
    by (simp_all add: dict_contains_def example_manager_def)
  have c: "members_ok example_manager" "ids_distinct example_manager"
    by (simp_all add: members_ok_def ids_distinct_def example_manager_def mk_task_def)
  from add_team_member_registers_or_rejects [of "''Carol''" example_manager "''carol@example.org''"]
    add_team_member_registers_or_rejects [of "''Bob''" example_manager "''bob@example.net''"]
    a b c
  show ?thesis by (simp add: example_manager_def)
qed

subsection \<open>The to-do list\<close>

lemma py_sorted_reverse_mset: "mset (py_sorted_reverse key xs) = mset xs"
  by (simp add: py_sorted_reverse_def)

lemma py_sorted_reverse_descending:
  "sorted_wrt (\<lambda>a b. key b \<le> key a) (py_sorted_reverse key xs)"
proof -
  have "sorted (map key (sort_key key (rev xs)))" by (rule sorted_sort_key)
  then have "sorted_wrt (\<lambda>a b. key a \<le> key b) (sort_key key (rev xs))"
    by (simp only: sorted_map)
  then show ?thesis by (simp add: py_sorted_reverse_def sorted_wrt_rev)
qed

lemma py_sorted_reverse_stable:
  "filter (\<lambda>x. key x = k) (py_sorted_reverse key xs) = filter (\<lambda>x. key x = k) xs"
proof -
  have "filter (\<lambda>x. key x = k) (sort_key key (rev xs)) = filter (\<lambda>x. key x = k) (rev xs)"
    by (rule sort_key_stable)
  then show ?thesis by (simp add: py_sorted_reverse_def rev_filter [symmetric])
qed

text \<open>
  Claim C8. \<^verbatim>\<open>generate_to_do_list(name)\<close> returns the empty list, and raises nothing,
  when the name is not registered. For a registered member it returns that member's
  tasks, each as often as the member holds it, in descending order of
  \<^verbatim>\<open>(priority.value, deadline)\<close>: a task precedes every task of lower priority, and
  among tasks of equal priority it precedes those with an earlier or equal deadline.
  Tasks of equal key keep the order of the member's list.
\<close>

theorem generate_to_do_list_descending:
  "(\<not> dict_contains member (team_members s) \<longrightarrow> generate_to_do_list member s = [])
   \<and> (\<forall>m. map_of (team_members s) member = Some m \<longrightarrow>
         mset (generate_to_do_list member s) = mset (member_tasks m)
         \<and> sorted_wrt
             (\<lambda>a b. priority_value (priority (objects s ! b)) < priority_value (priority (objects s ! a))
                \<or> priority_value (priority (objects s ! b)) = priority_value (priority (objects s ! a))
                  \<and> deadline (objects s ! b) \<le> deadline (objects s ! a))
             (generate_to_do_list member s)
         \<and> (\<forall>k. filter (\<lambda>r. todo_key s r = k) (generate_to_do_list member s)
                = filter (\<lambda>r. todo_key s r = k) (member_tasks m)))"
proof (intro conjI impI allI)
  assume "\<not> dict_contains member (team_members s)"
  then show "generate_to_do_list member s = []"
    by (simp add: generate_to_do_list_def dict_contains_def)
next
  fix m
  assume m: "map_of (team_members s) member = Some m"
  then have eq: "generate_to_do_list member s = py_sorted_reverse (todo_key s) (member_tasks m)"
    by (simp add: generate_to_do_list_def)
  show "mset (generate_to_do_list member s) = mset (member_tasks m)"
    unfolding eq by (rule py_sorted_reverse_mset)
  have "sorted_wrt (\<lambda>a b. todo_key s b \<le> todo_key s a) (generate_to_do_list member s)"
    unfolding eq by (rule py_sorted_reverse_descending)
  then show "sorted_wrt
      (\<lambda>a b. priority_value (priority (objects s ! b)) < priority_value (priority (objects s ! a))
         \<or> priority_value (priority (objects s ! b)) = priority_value (priority (objects s ! a))
           \<and> deadline (objects s ! b) \<le> deadline (objects s ! a))
      (generate_to_do_list member s)"
    by (rule sorted_wrt_mono_rel [rotated]) (auto simp: todo_key_def)
  fix k
  show "filter (\<lambda>r. todo_key s r = k) (generate_to_do_list member s)
      = filter (\<lambda>r. todo_key s r = k) (member_tasks m)"
    unfolding eq by (rule py_sorted_reverse_stable)
qed

theorem generate_to_do_list_descending_witness:
  "map_of (team_members example_manager) ''Alice''
     = Some \<lparr>name = ''Alice'', email = ''alice@example.org'', member_tasks = [0, 1, 2],
             workload = 8\<rparr>
   \<and> generate_to_do_list ''Alice'' example_manager = [2, 1, 0]
   \<and> mset (generate_to_do_list ''Alice'' example_manager) = mset [0, 1, 2]
   \<and> \<not> dict_contains ''Zed'' (team_members example_manager)
   \<and> generate_to_do_list ''Zed'' example_manager = []"
proof -
  have a: "map_of (team_members example_manager) ''Alice''
     = Some \<lparr>name = ''Alice'', email = ''alice@example.org'', member_tasks = [0, 1, 2],
             workload = 8\<rparr>"
    by (simp add: example_manager_def)
  have b: "generate_to_do_list ''Alice'' example_manager = [2, 1, 0]"
    by (simp add: generate_to_do_list_def example_manager_def py_sorted_reverse_def
        todo_key_def mk_task_def)
  have c: "\<not> dict_contains ''Zed'' (team_members example_manager)"
    by (simp add: dict_contains_def example_manager_def)
  from generate_to_do_list_descending [of "''Zed''" example_manager]
    generate_to_do_list_descending [of "''Alice''" example_manager] a b c
  show ?thesis by simp
qed

subsection \<open>Upcoming deadlines\<close>

lemma timedelta_in_range:
  "valid_date today \<Longrightarrow> 0 < int today + days \<Longrightarrow> int today + days \<le> int MAXORDINAL \<Longrightarrow>
   timedelta days = Inr days"
  by (simp add: timedelta_def valid_date_def MAXORDINAL_def)

lemma get_upcoming_deadlines_overflow:
  "\<not> (0 < int today + days \<and> int today + days \<le> int MAXORDINAL) \<Longrightarrow>
   get_upcoming_deadlines today days s = Inl OverflowError"
  by (auto simp: get_upcoming_deadlines_def timedelta_def date_add_def Let_def)

lemma get_upcoming_deadlines_filter:
  assumes "valid_date today" and "0 < int today + days" and "int today + days \<le> int MAXORDINAL"
  shows "get_upcoming_deadlines today days s
    = Inr (filter (\<lambda>r. int today \<le> int (deadline (objects s ! r))
                      \<and> int (deadline (objects s ! r)) \<le> int today + days) (tasks s))"
proof -
  have "(d \<le> nat (int today + days)) = (int d \<le> int today + days)" for d
    using assms(2) by linarith
  then show ?thesis
    using assms
    by (simp add: get_upcoming_deadlines_def timedelta_in_range date_add_def Let_def)
qed

text \<open>
  Claim C9, amended. Let \<open>today\<close> be the date at call time and let \<open>today + days\<close> be a
  date that \<^verbatim>\<open>datetime.date\<close> can represent (0001-01-01 to 9999-12-31, ordinals 1 to
  3652059). Then \<^verbatim>\<open>get_upcoming_deadlines(days)\<close> returns, in the order of the task
  list, exactly the tasks whose deadline lies in the inclusive range from \<open>today\<close> to
  \<open>today + days\<close>; for \<open>days = 0\<close> these are the tasks due today, and for negative
  \<open>days\<close> there are none. For every other \<open>days\<close> the call raises
  \<^verbatim>\<open>OverflowError\<close>.
\<close>

theorem get_upcoming_deadlines_in_range:
  assumes "valid_date today"
  shows "(0 < int today + days \<and> int today + days \<le> int MAXORDINAL \<longrightarrow>
            get_upcoming_deadlines today days s
              = Inr (filter (\<lambda>r. int today \<le> int (deadline (objects s ! r))
                                \<and> int (deadline (objects s ! r)) \<le> int today + days) (tasks s)))
    \<and> (days = 0 \<longrightarrow>
            get_upcoming_deadlines today days s
              = Inr (filter (\<lambda>r. deadline (objects s ! r) = today) (tasks s)))
    \<and> (days < 0 \<and> 0 < int today + days \<longrightarrow> get_upcoming_deadlines today days s = Inr [])
    \<and> (\<not> (0 < int today + days \<and> int today + days \<le> int MAXORDINAL) \<longrightarrow>
            get_upcoming_deadlines today days s = Inl OverflowError)"
proof (intro conjI impI)
  assume "0 < int today + days \<and> int today + days \<le> int MAXORDINAL"
  then show "get_upcoming_deadlines today days s
      = Inr (filter (\<lambda>r. int today \<le> int (deadline (objects s ! r))
                        \<and> int (deadline (objects s ! r)) \<le> int today + days) (tasks s))"
    using assms by (simp add: get_upcoming_deadlines_filter)
next
  assume "days = 0"
  moreover have "(today \<le> d \<and> d \<le> today) = (d = today)" for d :: nat by auto
  ultimately show "get_upcoming_deadlines today days s
      = Inr (filter (\<lambda>r. deadline (objects s ! r) = today) (tasks s))"
    using assms get_upcoming_deadlines_filter [of today 0 s]
    by (simp add: valid_date_def)
next
  assume neg: "days < 0 \<and> 0 < int today + days"
  then have "int today + days \<le> int MAXORDINAL" using assms by (simp add: valid_date_def)
  moreover have "\<not> (int today \<le> int d \<and> int d \<le> int today + days)" for d
    using neg by linarith
  ultimately show "get_upcoming_deadlines today days s = Inr []"
    using assms neg by (simp add: get_upcoming_deadlines_filter)
next
  assume "\<not> (0 < int today + days \<and> int today + days \<le> int MAXORDINAL)"
  then show "get_upcoming_deadlines today days s = Inl OverflowError"
    by (rule get_upcoming_deadlines_overflow)
qed

theorem get_upcoming_deadlines_in_range_witness:
  "valid_date 738895
   \<and> 0 < int 738895 + 2 \<and> int 738895 + 2 \<le> int MAXORDINAL
   \<and> get_upcoming_deadlines 738895 2 example_manager = Inr [0]
   \<and> get_upcoming_deadlines 738890 0 example_manager = Inr [1]
   \<and> get_upcoming_deadlines 738895 (- 3) example_manager = Inr []
   \<and> get_upcoming_deadlines 738895 (- 738895) example_manager = Inl OverflowError"
proof -
  have v: "valid_date 738895" "valid_date 738890"
    by (simp_all add: valid_date_def MAXORDINAL_def)
  have r: "0 < int 738895 + 2 \<and> int 738895 + 2 \<le> int MAXORDINAL"
    by (simp add: MAXORDINAL_def)
  from get_upcoming_deadlines_in_range [OF v(1), of 2 example_manager]
    get_upcoming_deadlines_in_range [OF v(2), of 0 example_manager]
    get_upcoming_deadlines_in_range [OF v(1), of "- 3" example_manager]
    get_upcoming_deadlines_in_range [OF v(1), of "- 738895" example_manager]
    v r
  show ?thesis by (simp add: example_manager_def mk_task_def MAXORDINAL_def)
qed

text \<open>
  The claim as written, for every integer \<open>days\<close>, fails: on 2024-01-10 (ordinal 738895)
  a look-ahead of minus one million days gives \<^verbatim>\<open>OverflowError\<close>, not the empty list.
\<close>

theorem get_upcoming_deadlines_counterexample:
  "get_upcoming_deadlines 738895 (- 1000000) example_manager = Inl OverflowError"
  by (simp add: get_upcoming_deadlines_def timedelta_def date_add_def Let_def)


subsection \<open>Updating a status\<close>

lemma find_task_None_iff:
  "find_task objs tid rs = None \<longleftrightarrow> (\<forall>r \<in> set rs. task_id (objs ! r) \<noteq> tid)"
  by (induction rs) auto

lemma find_task_first:
  "i < length rs \<Longrightarrow> task_id (objs ! (rs ! i)) = tid \<Longrightarrow>
   (\<forall>j < i. task_id (objs ! (rs ! j)) \<noteq> tid) \<Longrightarrow>
   find_task objs tid rs = Some (rs ! i)"
proof (induction rs arbitrary: i)
  case Nil
  then show ?case by simp
next
  case (Cons r rs)
  show ?case
  proof (cases i)
    case 0
    with Cons.prems show ?thesis by simp
  next
    case (Suc k)
    with Cons.prems have "task_id (objs ! r) \<noteq> tid" by auto
    moreover have "find_task objs tid rs = Some (rs ! k)"
    proof (rule Cons.IH)
      show "k < length rs" using Cons.prems Suc by simp
      show "task_id (objs ! (rs ! k)) = tid" using Cons.prems Suc by simp
      show "\<forall>j < k. task_id (objs ! (rs ! j)) \<noteq> tid"
      proof (intro allI impI)
        fix j assume "j < k"
        then have "Suc j < i" using Suc by simp
        with Cons.prems(3) have "task_id (objs ! ((r # rs) ! Suc j)) \<noteq> tid" by blast
        then show "task_id (objs ! (rs ! j)) \<noteq> tid" by simp
      qed
    qed
    ultimately show ?thesis using Suc by simp
  qed
qed

lemma task_id_status_update:
  "task_id (objs[r := (objs ! r)\<lparr>status := st\<rparr>] ! x) = task_id (objs ! x)"
  by (cases "r < length objs"; cases "x = r") (simp_all add: list_update_beyond)

text \<open>
  Claim C7. \<^verbatim>\<open>update_task_status(task_id, new_status)\<close> scans \<^verbatim>\<open>self.tasks\<close> in list
  order. When no task of the list has the id, the call returns normally and the manager
  is unchanged. Otherwise, for the first task of the list with that id, the object store
  changes at that task only and there only in the field \<open>status\<close>; the task list and
  the member dict are unchanged, and in a well-formed manager the call returns normally.
\<close>

theorem update_task_status_first_match:
  "((\<forall>r \<in> set (tasks s). task_id (objects s ! r) \<noteq> tid) \<longrightarrow>
      update_task_status tid st s = (Inr (), s))
   \<and> (\<forall>i < length (tasks s).
        task_id (objects s ! (tasks s ! i)) = tid
        \<and> (\<forall>j < i. task_id (objects s ! (tasks s ! j)) \<noteq> tid) \<longrightarrow>
          objects (snd (update_task_status tid st s))
            = (objects s)[tasks s ! i := (objects s ! (tasks s ! i))\<lparr>status := st\<rparr>]
          \<and> tasks (snd (update_task_status tid st s)) = tasks s
          \<and> team_members (snd (update_task_status tid st s)) = team_members s
          \<and> (members_ok s \<and> ids_distinct s \<longrightarrow> fst (update_task_status tid st s) = Inr ()))"
proof (intro conjI impI allI)
  assume "\<forall>r \<in> set (tasks s). task_id (objects s ! r) \<noteq> tid"
  then have "find_task (objects s) tid (tasks s) = None" by (simp only: find_task_None_iff)
  then show "update_task_status tid st s = (Inr (), s)" by (simp add: update_task_status_def)
next
  fix i
  assume i: "i < length (tasks s)"
    and "task_id (objects s ! (tasks s ! i)) = tid
      \<and> (\<forall>j < i. task_id (objects s ! (tasks s ! j)) \<noteq> tid)"
  then have "find_task (objects s) tid (tasks s) = Some (tasks s ! i)"
    by (simp add: find_task_first)
  then have eq: "update_task_status tid st s
      = save_data (s\<lparr>objects := (objects s)[tasks s ! i := (objects s ! (tasks s ! i))\<lparr>status := st\<rparr>]\<rparr>)"
    by (simp add: update_task_status_def)
  show "objects (snd (update_task_status tid st s))
      = (objects s)[tasks s ! i := (objects s ! (tasks s ! i))\<lparr>status := st\<rparr>]"
    unfolding eq by (simp add: save_data_objects)
  show "tasks (snd (update_task_status tid st s)) = tasks s"
    unfolding eq by (simp add: save_data_tasks)
  show "team_members (snd (update_task_status tid st s)) = team_members s"
    unfolding eq by (simp add: save_data_team_members)
  assume "members_ok s \<and> ids_distinct s"
  then have "members_ok
        (s\<lparr>objects := (objects s)[tasks s ! i := (objects s ! (tasks s ! i))\<lparr>status := st\<rparr>]\<rparr>)"
    and "ids_distinct
        (s\<lparr>objects := (objects s)[tasks s ! i := (objects s ! (tasks s ! i))\<lparr>status := st\<rparr>]\<rparr>)"
    by (simp_all add: members_ok_def ids_distinct_def task_id_status_update)
  then show "fst (update_task_status tid st s) = Inr ()"
    unfolding eq by (simp add: save_data_ok)
qed

theorem update_task_status_first_match_witness:
  "1 < length (tasks example_manager)
   \<and> task_id (objects example_manager ! (tasks example_manager ! 1)) = 2
   \<and> task_id (objects example_manager ! (tasks example_manager ! 0)) \<noteq> 2
   \<and> members_ok example_manager \<and> ids_distinct example_manager
   \<and> fst (update_task_status 2 ''Completed'' example_manager) = Inr ()
   \<and> map status (objects (snd (update_task_status 2 ''Completed'' example_manager)))
       = [''Not Started'', ''Completed'', ''Not Started'', ''Not Started'']
   \<and> team_members (snd (update_task_status 2 ''Completed'' example_manager))
       = team_members example_manager
   \<and> update_task_status 99 ''Completed'' example_manager = (Inr (), example_manager)"
proof -
  have a: "1 < length (tasks example_manager)"
    "task_id (objects example_manager ! (tasks example_manager ! 1)) = 2"
    "task_id (objects example_manager ! (tasks example_manager ! 0)) \<noteq> 2"
    by (simp_all add: example_manager_def mk_task_def)
  have b: "\<forall>j < 1. task_id (objects example_manager ! (tasks example_manager ! j)) \<noteq> 2"
    using a(3) by simp
  have c: "members_ok example_manager" "ids_distinct example_manager"
    by (simp_all add: members_ok_def ids_distinct_def example_manager_def mk_task_def)
  have d: "\<forall>r \<in> set (tasks example_manager). task_id (objects example_manager ! r) \<noteq> 99"
    by (simp add: example_manager_def mk_task_def)
  have e: "tasks example_manager ! 1 = 1" by (simp add: example_manager_def)
  note found = update_task_status_first_match [of example_manager 2 "''Completed''",
      THEN conjunct2, rule_format, of 1, OF a(1) conjI [OF a(2) b], unfolded e]
  note missing = update_task_status_first_match [of example_manager 99 "''Completed''",
      THEN conjunct1, rule_format, OF d [rule_format]]
  have "fst (update_task_status 2 ''Completed'' example_manager) = Inr ()"
    using found c by simp
  moreover have "objects (snd (update_task_status 2 ''Completed'' example_manager))
      = (objects example_manager)[1 := (objects example_manager ! 1)\<lparr>status := ''Completed''\<rparr>]"
    using found by simp
  moreover have "team_members (snd (update_task_status 2 ''Completed'' example_manager))
      = team_members example_manager"
    using found by simp
  moreover note missing
  ultimately show ?thesis using a c by (simp add: example_manager_def mk_task_def)
qed

subsection \<open>Allocation to the least loaded member\<close>

lemma min_scan_spec:
  "(min_scan best bv i vs = best \<and> (\<forall>v \<in> set vs. bv \<le> v))
   \<or> (\<exists>k < length vs. min_scan best bv i vs = i + k \<and> vs ! k < bv
         \<and> (\<forall>j < length vs. vs ! k \<le> vs ! j) \<and> (\<forall>j < k. vs ! k < vs ! j))"
proof (induction vs arbitrary: best bv i)
  case Nil
  show ?case by simp
next
  case (Cons v vs)
  show ?case
  proof (cases "v < bv")
    case True
    from Cons.IH [of i v "Suc i"] show ?thesis
    proof (elim disjE conjE exE)
      assume "min_scan i v (Suc i) vs = i" and "\<forall>u \<in> set vs. v \<le> u"
      then have "min_scan best bv i (v # vs) = i + 0 \<and> (v # vs) ! 0 < bv
          \<and> (\<forall>j < length (v # vs). (v # vs) ! 0 \<le> (v # vs) ! j)
          \<and> (\<forall>j < 0. (v # vs) ! 0 < (v # vs) ! j)"
        using True by (auto simp: nth_Cons')
      then show ?thesis by blast
    next
      fix k
      assume k: "k < length vs" and "min_scan i v (Suc i) vs = Suc i + k" and "vs ! k < v"
        and "\<forall>j < length vs. vs ! k \<le> vs ! j" and "\<forall>j < k. vs ! k < vs ! j"
      then have "min_scan best bv i (v # vs) = i + Suc k \<and> (v # vs) ! Suc k < bv
          \<and> (\<forall>j < length (v # vs). (v # vs) ! Suc k \<le> (v # vs) ! j)
          \<and> (\<forall>j < Suc k. (v # vs) ! Suc k < (v # vs) ! j)"
        using True by (auto simp: nth_Cons' less_Suc_eq_0_disj)
      moreover have "Suc k < length (v # vs)" using k by simp
      ultimately show ?thesis by blast
    qed
  next
    case False
    from Cons.IH [of best bv "Suc i"] show ?thesis
    proof (elim disjE conjE exE)
      assume "min_scan best bv (Suc i) vs = best" and "\<forall>u \<in> set vs. bv \<le> u"
      then show ?thesis using False by simp
    next
      fix k
      assume k: "k < length vs" and "min_scan best bv (Suc i) vs = Suc i + k" and "vs ! k < bv"
        and "\<forall>j < length vs. vs ! k \<le> vs ! j" and "\<forall>j < k. vs ! k < vs ! j"
      then have "min_scan best bv i (v # vs) = i + Suc k \<and> (v # vs) ! Suc k < bv
          \<and> (\<forall>j < length (v # vs). (v # vs) ! Suc k \<le> (v # vs) ! j)
          \<and> (\<forall>j < Suc k. (v # vs) ! Suc k < (v # vs) ! j)"
        using False by (auto simp: nth_Cons' less_Suc_eq_0_disj)
      moreover have "Suc k < length (v # vs)" using k by simp
      ultimately show ?thesis by blast
    qed
  qed
qed

lemma py_min_index_first_minimum:
  assumes "vs \<noteq> []"
  shows "\<exists>i < length vs. py_min_index vs = Some i
    \<and> (\<forall>j < length vs. vs ! i \<le> vs ! j) \<and> (\<forall>j < i. vs ! i < vs ! j)"
proof -
  from assms obtain v ws where vs: "vs = v # ws" by (cases vs) auto
  from min_scan_spec [of 0 v 1 ws] show ?thesis
  proof (elim disjE conjE exE)
    assume "min_scan 0 v 1 ws = 0" and "\<forall>u \<in> set ws. v \<le> u"
    then have "py_min_index vs = Some 0 \<and> (\<forall>j < length vs. vs ! 0 \<le> vs ! j)
        \<and> (\<forall>j < 0. vs ! 0 < vs ! j)"
      unfolding vs by (auto simp: nth_Cons')
    moreover have "0 < length vs" unfolding vs by simp
    ultimately show ?thesis by blast
  next
    fix k
    assume k: "k < length ws" and "min_scan 0 v 1 ws = 1 + k" and "ws ! k < v"
      and "\<forall>j < length ws. ws ! k \<le> ws ! j" and "\<forall>j < k. ws ! k < ws ! j"
    then have "py_min_index vs = Some (Suc k) \<and> (\<forall>j < length vs. vs ! Suc k \<le> vs ! j)
        \<and> (\<forall>j < Suc k. vs ! Suc k < vs ! j)"
      unfolding vs by (auto simp: nth_Cons' less_Suc_eq_0_disj)
    moreover have "Suc k < length vs" unfolding vs using k by simp
    ultimately show ?thesis by blast
  qed
qed

lemma task_id_assigned_update:
  "task_id (objs[r := (objs ! r)\<lparr>assigned_to := a\<rparr>] ! x) = task_id (objs ! x)"
  by (cases "r < length objs"; cases "x = r") (simp_all add: list_update_beyond)

lemma priority_assigned_update:
  "priority (objs[r := (objs ! r)\<lparr>assigned_to := a\<rparr>] ! x) = priority (objs ! x)"
  by (cases "r < length objs"; cases "x = r") (simp_all add: list_update_beyond)

lemma members_ok_update:
  assumes "distinct (map fst d)" "list_all (\<lambda>(k, m). name m = k) d" "i < length d"
    "d ! i = (k, m)" "name m' = k"
  shows "distinct (map fst (d[i := (k, m')])) \<and> list_all (\<lambda>(k, m). name m = k) (d[i := (k, m')])"
proof -
  have "map fst (d[i := (k, m')]) = (map fst d)[i := k]" by (simp add: map_update)
  also have "\<dots> = map fst d"
    using assms(3,4) by (simp add: list_update_same_conv)
  finally have "map fst (d[i := (k, m')]) = map fst d" .
  moreover have "list_all (\<lambda>(k, m). name m = k) (d[i := (k, m')])"
    using assms(2,5) set_update_subset_insert [of d i "(k, m')"]
    by (auto simp: list_all_iff)
  ultimately show ?thesis using assms(1) by simp
qed

lemma allocate_task_step:
  assumes "team_members s \<noteq> []"
  shows "\<exists>i k m. i < length (team_members s) \<and> team_members s ! i = (k, m)
    \<and> (\<forall>j < length (team_members s). workload m \<le> workload (snd (team_members s ! j)))
    \<and> (\<forall>j < i. workload m < workload (snd (team_members s ! j)))
    \<and> allocate_task r s
        = save_data
            (s\<lparr>objects := (objects s)[r := (objects s ! r)\<lparr>assigned_to := name m\<rparr>],
               team_members := (team_members s)
                 [i := (k, m\<lparr>member_tasks := member_tasks m @ [r],
                              workload := workload m + priority_value (priority (objects s ! r))\<rparr>)]\<rparr>)"
proof -
  define ws where "ws = map (\<lambda>(k, m). workload m) (team_members s)"
  have len: "length ws = length (team_members s)" by (simp add: ws_def)
  have nth: "ws ! j = workload (snd (team_members s ! j))" if "j < length (team_members s)" for j
    using that by (simp add: ws_def split_beta)
  from assms have "ws \<noteq> []" by (simp add: ws_def)
  from py_min_index_first_minimum [OF this]
  obtain i where i: "i < length ws" and idx: "py_min_index ws = Some i"
    and least: "\<forall>j < length ws. ws ! i \<le> ws ! j" and first: "\<forall>j < i. ws ! i < ws ! j"
    by blast
  obtain k m where km: "team_members s ! i = (k, m)" by (cases "team_members s ! i") auto
  have wi: "ws ! i = workload m" using nth [of i] i len km by simp
  have a: "\<forall>j < length (team_members s). workload m \<le> workload (snd (team_members s ! j))"
    using least nth len wi by auto
  have b: "\<forall>j < i. workload m < workload (snd (team_members s ! j))"
    using first nth len wi i by auto
  have c: "allocate_task r s
        = save_data
            (s\<lparr>objects := (objects s)[r := (objects s ! r)\<lparr>assigned_to := name m\<rparr>],
               team_members := (team_members s)
                 [i := (k, m\<lparr>member_tasks := member_tasks m @ [r],
                              workload := workload m + priority_value (priority (objects s ! r))\<rparr>)]\<rparr>)"
    using idx km
    by (simp add: allocate_task_def ws_def [symmetric] Let_def priority_assigned_update)
  show ?thesis
    by (rule exI [of _ i], rule exI [of _ k], rule exI [of _ m])
      (use i len km a b c in simp)
qed

text \<open>
  Claim C6. In a manager with at least one registered member, \<^verbatim>\<open>allocate_task(task)\<close>
  picks a member of least workload, the first such in registration order (every member
  registered before has a strictly larger workload). It writes that member's name to the
  task's \<open>assigned_to\<close> and changes no other object and no other field, appends the task
  to that member's list, adds \<^verbatim>\<open>task.priority.value\<close> to that member's workload,
  changes no other member, and leaves \<^verbatim>\<open>self.tasks\<close> as it is. In a well-formed
  manager the call returns normally.
\<close>

theorem allocate_task_least_loaded:
  assumes "team_members s \<noteq> []" and "r < length (objects s)"
  shows "\<exists>i k m. i < length (team_members s) \<and> team_members s ! i = (k, m)
    \<and> (\<forall>j < length (team_members s). workload m \<le> workload (snd (team_members s ! j)))
    \<and> (\<forall>j < i. workload m < workload (snd (team_members s ! j)))
    \<and> objects (snd (allocate_task r s))
        = (objects s)[r := (objects s ! r)\<lparr>assigned_to := name m\<rparr>]
    \<and> assigned_to (objects (snd (allocate_task r s)) ! r) = name m
    \<and> team_members (snd (allocate_task r s))
        = (team_members s)
            [i := (k, m\<lparr>member_tasks := member_tasks m @ [r],
                         workload := workload m + priority_value (priority (objects s ! r))\<rparr>)]
    \<and> tasks (snd (allocate_task r s)) = tasks s
    \<and> (members_ok s \<and> ids_distinct s \<longrightarrow> fst (allocate_task r s) = Inr ())"
proof -
  from allocate_task_step [OF assms(1), of r]
  obtain i k m where i: "i < length (team_members s)" and km: "team_members s ! i = (k, m)"
    and least: "\<forall>j < length (team_members s). workload m \<le> workload (snd (team_members s ! j))"
    and first: "\<forall>j < i. workload m < workload (snd (team_members s ! j))"
    and eq: "allocate_task r s
        = save_data
            (s\<lparr>objects := (objects s)[r := (objects s ! r)\<lparr>assigned_to := name m\<rparr>],
               team_members := (team_members s)
                 [i := (k, m\<lparr>member_tasks := member_tasks m @ [r],
                              workload := workload m + priority_value (priority (objects s ! r))\<rparr>)]\<rparr>)"
    by blast
  define s' where "s' = s\<lparr>objects := (objects s)[r := (objects s ! r)\<lparr>assigned_to := name m\<rparr>],
               team_members := (team_members s)
                 [i := (k, m\<lparr>member_tasks := member_tasks m @ [r],
                              workload := workload m + priority_value (priority (objects s ! r))\<rparr>)]\<rparr>"
  have eq': "allocate_task r s = save_data s'" unfolding s'_def by (rule eq)
  have ok: "fst (allocate_task r s) = Inr ()" if "members_ok s" "ids_distinct s"
  proof -
    from that(1) i km have "name m = k"
      by (auto simp: members_ok_def list_all_length)
    with that(1) i km have "members_ok s'"
      unfolding members_ok_def s'_def
      using members_ok_update [of "team_members s" i k m]
      by simp
    moreover from that(2) have "ids_distinct s'"
      by (simp add: ids_distinct_def s'_def task_id_assigned_update)
    ultimately show ?thesis unfolding eq' by (simp add: save_data_ok)
  qed
  have o: "objects (snd (allocate_task r s))
        = (objects s)[r := (objects s ! r)\<lparr>assigned_to := name m\<rparr>]"
    unfolding eq' by (simp add: save_data_objects s'_def)
  have a: "assigned_to (objects (snd (allocate_task r s)) ! r) = name m"
    unfolding eq' using assms(2) by (simp add: save_data_objects s'_def)
  have t: "team_members (snd (allocate_task r s))
        = (team_members s)
            [i := (k, m\<lparr>member_tasks := member_tasks m @ [r],
                         workload := workload m + priority_value (priority (objects s ! r))\<rparr>)]"
    unfolding eq' by (simp add: save_data_team_members s'_def)
  have g: "tasks (snd (allocate_task r s)) = tasks s"
    unfolding eq' by (simp add: save_data_tasks s'_def)
  show ?thesis
    by (rule exI [of _ i], rule exI [of _ k], rule exI [of _ m])
      (use i km least first ok o a t g in simp)
qed

theorem allocate_task_least_loaded_witness:
  "team_members example_manager \<noteq> [] \<and> 3 < length (objects example_manager)
   \<and> members_ok example_manager \<and> ids_distinct example_manager
   \<and> fst (allocate_task 3 example_manager) = Inr ()
   \<and> assigned_to (objects (snd (allocate_task 3 example_manager)) ! 3) = ''Bob''
   \<and> map (\<lambda>(k, m). (k, member_tasks m, workload m))
        (team_members (snd (allocate_task 3 example_manager)))
       = [(''Alice'', [0, 1, 2], 8), (''Bob'', [3], 1)]
   \<and> tasks (snd (allocate_task 3 example_manager)) = [0, 1, 2]"
proof -
  have h: "team_members example_manager \<noteq> []" "3 < length (objects example_manager)"
    by (simp_all add: example_manager_def)
  have c: "members_ok example_manager" "ids_distinct example_manager"
    by (simp_all add: members_ok_def ids_distinct_def example_manager_def mk_task_def)
  from allocate_task_least_loaded [OF h]
  obtain i k m where i: "i < length (team_members example_manager)"
    and km: "team_members example_manager ! i = (k, m)"
    and least: "\<forall>j < length (team_members example_manager).
        workload m \<le> workload (snd (team_members example_manager ! j))"
    and a: "assigned_to (objects (snd (allocate_task 3 example_manager)) ! 3) = name m"
    and t: "team_members (snd (allocate_task 3 example_manager))
        = (team_members example_manager)
            [i := (k, m\<lparr>member_tasks := member_tasks m @ [3],
                         workload := workload m
                           + priority_value (priority (objects example_manager ! 3))\<rparr>)]"
    and g: "tasks (snd (allocate_task 3 example_manager)) = tasks example_manager"
    and ok: "members_ok example_manager \<and> ids_distinct example_manager
        \<longrightarrow> fst (allocate_task 3 example_manager) = Inr ()"
    by blast
  from i have "i = 0 \<or> i = 1" by (auto simp: example_manager_def)
  moreover have "i \<noteq> 0"
  proof
    assume "i = 0"
    with km least [rule_format, of 1] show False by (auto simp: example_manager_def)
  qed
  ultimately have i1: "i = 1" by simp
  from km have m: "k = ''Bob''"
    "m = \<lparr>name = ''Bob'', email = ''bob@example.org'', member_tasks = [], workload = 0\<rparr>"
    unfolding i1 by (auto simp: example_manager_def)
  show ?thesis
    using h c ok a g unfolding t i1 m
    by (simp add: example_manager_def mk_task_def)
qed

subsection \<open>Creating a task\<close>

lemma dict_modify_twice:
  "dict_modify k f (dict_modify k g d) = dict_modify k (\<lambda>m. f (g m)) d"
  by (induction d) auto

lemma dict_modify_keys: "map fst (dict_modify k f d) = map fst d"
  by (induction d) auto

lemma map_of_dict_modify_None: "map_of d k = None \<Longrightarrow> dict_modify k f d = d"
  by (induction d) (auto split: if_splits)

lemma dict_contains_dict_modify:
  "dict_contains k' (dict_modify k f d) = dict_contains k' d"
proof -
  have "(k' \<in> fst ` set (dict_modify k f d)) = (k' \<in> fst ` set d)"
    using dict_modify_keys [of k f d] by (metis set_map)
  then show ?thesis
    by (simp add: dict_contains_def map_of_eq_None_iff)
qed

lemma snd_case_result:
  "snd (case p of (Inl e, t) \<Rightarrow> (Inl e, t) | (Inr u, t) \<Rightarrow> (Inr r, t)) = snd p"
  by (auto split: prod.splits sum.splits)

text \<open>What \<^verbatim>\<open>add_task\<close> leaves in memory, whether it returns or raises.\<close>

lemma add_task_memory:
  "objects (snd (add_task now ti de dl pr member s))
     = objects s @ [\<lparr>task_id = py_max 0 (task_ids s) + 1, title = ti, description = de,
                     deadline = dl, priority = pr, assigned_to = member,
                     status = ''Not Started'', created_at = now\<rparr>]"
  "tasks (snd (add_task now ti de dl pr member s)) = tasks s @ [length (objects s)]"
  "team_members (snd (add_task now ti de dl pr member s))
     = dict_modify member
         (\<lambda>m. m\<lparr>member_tasks := member_tasks m @ [length (objects s)],
                 workload := workload m + priority_value pr\<rparr>)
         (team_members s)"
proof -
  show "objects (snd (add_task now ti de dl pr member s))
     = objects s @ [\<lparr>task_id = py_max 0 (task_ids s) + 1, title = ti, description = de,
                     deadline = dl, priority = pr, assigned_to = member,
                     status = ''Not Started'', created_at = now\<rparr>]"
    by (cases "dict_contains member (team_members s)")
      (simp_all add: add_task_def Let_def task_ids_def snd_case_result save_data_objects)
  show "tasks (snd (add_task now ti de dl pr member s)) = tasks s @ [length (objects s)]"
    by (cases "dict_contains member (team_members s)")
      (simp_all add: add_task_def Let_def snd_case_result save_data_tasks)
  show "team_members (snd (add_task now ti de dl pr member s))
     = dict_modify member
         (\<lambda>m. m\<lparr>member_tasks := member_tasks m @ [length (objects s)],
                 workload := workload m + priority_value pr\<rparr>)
         (team_members s)"
  proof (cases "dict_contains member (team_members s)")
    case True
    then show ?thesis
      by (simp add: add_task_def Let_def snd_case_result save_data_team_members
          dict_modify_twice)
  next
    case False
    then have "map_of (team_members s) member = None" by (simp add: dict_contains_def)
    then show ?thesis
      using False by (simp add: add_task_def Let_def map_of_dict_modify_None)
  qed
qed

lemma add_task_unknown_member:
  "\<not> dict_contains member (team_members s) \<Longrightarrow>
   fst (add_task now ti de dl pr member s)
     = Inl (ValueError (''Team member '' @ member @ '' does not exist''))"
  by (simp add: add_task_def Let_def)

text \<open>
  Claim C1 fails on the code. \<^verbatim>\<open>add_task\<close> appends the new task to \<^verbatim>\<open>self.tasks\<close>
  before it looks the member up: for a name that is not registered it raises the
  \<^verbatim>\<open>ValueError\<close> and the members are unchanged, but the task list has grown by the
  rejected task. Here Mallory is not a member of the example, and the list \<open>[0, 1, 2]\<close>
  becomes \<open>[0, 1, 2, 4]\<close>, with the new task carrying id 4.
\<close>

theorem add_task_unknown_member_keeps_task:
  "\<not> dict_contains ''Mallory'' (team_members example_manager)
   \<and> fst (add_task example_now ''audit'' ''books'' 738900 LOW ''Mallory'' example_manager)
       = Inl (ValueError ''Team member Mallory does not exist'')
   \<and> tasks example_manager = [0, 1, 2]
   \<and> tasks (snd (add_task example_now ''audit'' ''books'' 738900 LOW ''Mallory'' example_manager))
       = [0, 1, 2, 4]
   \<and> task_id (objects (snd (add_task example_now ''audit'' ''books'' 738900 LOW ''Mallory''
        example_manager)) ! 4) = 4
   \<and> team_members (snd (add_task example_now ''audit'' ''books'' 738900 LOW ''Mallory''
        example_manager)) = team_members example_manager"
proof -
  have a: "\<not> dict_contains ''Mallory'' (team_members example_manager)"
    by (simp add: dict_contains_def example_manager_def)
  have b: "task_ids example_manager = [1, 2, 3]"
    by (simp add: task_ids_def example_manager_def mk_task_def)
  have c: "dict_modify ''Mallory'' f (team_members example_manager) = team_members example_manager"
    for f
    by (simp add: example_manager_def)
  show ?thesis
    using a add_task_unknown_member [OF a]
    by (simp add: add_task_memory b c) (simp add: example_manager_def)
qed

subsection \<open>Allocation with no member\<close>

text \<open>
  Claim C5 fails on the code. With no registered member \<^verbatim>\<open>min\<close> is called on an empty
  sequence: \<^verbatim>\<open>allocate_task\<close> raises \<^verbatim>\<open>ValueError\<close> and nothing in it handles the
  exception. The manager is left unchanged.
\<close>

theorem allocate_task_no_member_raises:
  "team_members (empty_manager\<lparr>objects := [mk_task 1 ''triage'' 738896 LOW ''nobody'']\<rparr>) = []
   \<and> allocate_task 0 (empty_manager\<lparr>objects := [mk_task 1 ''triage'' 738896 LOW ''nobody'']\<rparr>)
       = (Inl (ValueError ''min() arg is an empty sequence''),
          empty_manager\<lparr>objects := [mk_task 1 ''triage'' 738896 LOW ''nobody'']\<rparr>)"
  by (simp add: allocate_task_def empty_manager_def)

subsection \<open>The workload invariant\<close>

text \<open>
  The invariant is kept per member: the addresses of the member's list exist, and the
  workload is the sum over them.
\<close>

lemma refs_workload_iff:
  "refs_ok s \<and> workload_ok s \<longleftrightarrow>
     list_all (\<lambda>r. r < length (objects s)) (tasks s)
     \<and> list_all (\<lambda>(k, m). list_all (\<lambda>r. r < length (objects s)) (member_tasks m)
                    \<and> workload m = member_load (objects s) m) (team_members s)"
  by (auto simp: refs_ok_def workload_ok_def list_all_iff)

lemma member_load_append:
  assumes "list_all (\<lambda>r. r < length objs) (member_tasks m)"
  shows "member_load (objs @ ts) m = member_load objs m"
proof -
  have "map (\<lambda>r. priority_value (priority ((objs @ ts) ! r))) (member_tasks m)
      = map (\<lambda>r. priority_value (priority (objs ! r))) (member_tasks m)"
    by (rule map_cong [OF refl]) (use assms in \<open>simp add: list_all_iff nth_append\<close>)
  then show ?thesis by (simp only: member_load_def)
qed

lemma member_load_assigned:
  "member_load (objs[r := (objs ! r)\<lparr>assigned_to := a\<rparr>]) m = member_load objs m"
  by (simp add: member_load_def priority_assigned_update)

lemma member_load_snoc:
  "member_load objs (m\<lparr>member_tasks := member_tasks m @ [r], workload := w\<rparr>)
     = member_load objs m + priority_value (priority (objs ! r))"
  by (simp add: member_load_def)

lemma list_all_dict_modify:
  "list_all P d \<Longrightarrow> (\<And>k m. P (k, m) \<Longrightarrow> P (k, f m)) \<Longrightarrow> list_all P (dict_modify key f d)"
  by (induction d) auto

lemma construct_keeps_invariant:
  assumes "refs_ok s \<and> workload_ok s"
  shows "refs_ok (s\<lparr>objects := objects s @ [task]\<rparr>) \<and> workload_ok (s\<lparr>objects := objects s @ [task]\<rparr>)"
proof -
  have "list_all (\<lambda>r. r < Suc (length (objects s))) (tasks s)"
    using assms by (auto simp: refs_workload_iff list_all_iff)
  moreover have "list_all (\<lambda>(k, m). list_all (\<lambda>r. r < Suc (length (objects s))) (member_tasks m)
        \<and> workload m = member_load (objects s @ [task]) m) (team_members s)"
    using assms
    by (auto simp: refs_workload_iff list_all_iff member_load_append less_Suc_eq)
  ultimately show ?thesis by (simp add: refs_workload_iff)
qed

lemma add_task_keeps_invariant:
  assumes "refs_ok s \<and> workload_ok s"
  shows "refs_ok (snd (add_task now ti de dl pr member s))
    \<and> workload_ok (snd (add_task now ti de dl pr member s))"
proof -
  define task where "task = \<lparr>task_id = py_max 0 (task_ids s) + 1, title = ti, description = de,
    deadline = dl, priority = pr, assigned_to = member, status = ''Not Started'',
    created_at = now\<rparr>"
  define n where "n = length (objects s)"
  define P where "P = (\<lambda>(k :: string, m). list_all (\<lambda>r. r < Suc n) (member_tasks m)
        \<and> workload m = member_load (objects s @ [task]) m)"
  have old: "list_all (\<lambda>(k, m). list_all (\<lambda>r. r < n) (member_tasks m)
        \<and> workload m = member_load (objects s) m) (team_members s)"
    and t: "list_all (\<lambda>r. r < n) (tasks s)"
    using assms by (simp_all add: refs_workload_iff n_def)
  have "list_all P (team_members s)"
    using old unfolding P_def
    by (auto simp: list_all_iff member_load_append n_def less_Suc_eq)
  moreover have "P (k, m\<lparr>member_tasks := member_tasks m @ [n],
        workload := workload m + priority_value pr\<rparr>)" if "P (k, m)" for k m
    using that unfolding P_def
    by (simp add: member_load_snoc n_def task_def)
  ultimately have "list_all P (dict_modify member
      (\<lambda>m. m\<lparr>member_tasks := member_tasks m @ [n], workload := workload m + priority_value pr\<rparr>)
      (team_members s))"
    by (rule list_all_dict_modify)
  moreover have "list_all (\<lambda>r. r < Suc n) (tasks s @ [n])"
    using t by (auto simp: list_all_iff)
  ultimately show ?thesis
    by (simp add: refs_workload_iff add_task_memory task_def n_def P_def)
qed

lemma allocate_task_keeps_invariant:
  assumes "refs_ok s \<and> workload_ok s" and "r < length (objects s)"
  shows "refs_ok (snd (allocate_task r s)) \<and> workload_ok (snd (allocate_task r s))"
proof (cases "team_members s = []")
  case True
  then have "allocate_task r s = (Inl (ValueError ''min() arg is an empty sequence''), s)"
    by (simp add: allocate_task_def)
  with assms show ?thesis by simp
next
  case False
  from allocate_task_step [OF False, of r]
  obtain i k m where i: "i < length (team_members s)" and km: "team_members s ! i = (k, m)"
    and eq: "allocate_task r s
        = save_data
            (s\<lparr>objects := (objects s)[r := (objects s ! r)\<lparr>assigned_to := name m\<rparr>],
               team_members := (team_members s)
                 [i := (k, m\<lparr>member_tasks := member_tasks m @ [r],
                              workload := workload m + priority_value (priority (objects s ! r))\<rparr>)]\<rparr>)"
    by blast
  define n where "n = length (objects s)"
  define objs' where "objs' = (objects s)[r := (objects s ! r)\<lparr>assigned_to := name m\<rparr>]"
  define P where "P = (\<lambda>(k :: string, m). list_all (\<lambda>r. r < n) (member_tasks m)
        \<and> workload m = member_load objs' m)"
  have old: "list_all (\<lambda>(k, m). list_all (\<lambda>r. r < n) (member_tasks m)
        \<and> workload m = member_load (objects s) m) (team_members s)"
    and t: "list_all (\<lambda>r. r < n) (tasks s)"
    using assms(1) by (simp_all add: refs_workload_iff n_def)
  have all: "list_all P (team_members s)"
    using old unfolding P_def objs'_def by (simp add: member_load_assigned)
  then have "P (k, m)" using i km by (auto simp: list_all_length)
  then have "P (k, m\<lparr>member_tasks := member_tasks m @ [r],
        workload := workload m + priority_value (priority (objects s ! r))\<rparr>)"
    using assms(2) unfolding P_def objs'_def
    by (simp add: member_load_snoc priority_assigned_update n_def)
  with all have "list_all P ((team_members s)
      [i := (k, m\<lparr>member_tasks := member_tasks m @ [r],
                   workload := workload m + priority_value (priority (objects s ! r))\<rparr>)])"
    using set_update_subset_insert [of "team_members s" i]
    by (auto simp: list_all_iff)
  then show ?thesis
    using t
    by (simp add: refs_workload_iff eq save_data_objects save_data_tasks
        save_data_team_members P_def objs'_def n_def)
qed

text \<open>
  Claim C2. Let the manager be well-formed in its addresses and satisfy the workload
  invariant. After any sequence of \<^verbatim>\<open>add_task\<close> and \<^verbatim>\<open>allocate_task\<close> calls,
  whether they return or raise, every member's \<open>workload\<close> equals the sum of
  \<^verbatim>\<open>priority.value\<close> over the tasks of that member's list.
\<close>

theorem workload_invariant:
  assumes "refs_ok s" and "workload_ok s" and "reachable s s'"
  shows "list_all
      (\<lambda>(k, m). workload m
         = sum_list (map (\<lambda>r. priority_value (priority (objects s' ! r))) (member_tasks m)))
      (team_members s')"
proof -
  from assms(3) have "refs_ok s' \<and> workload_ok s'"
  proof (induction rule: reachable.induct)
    case start
    from assms(1,2) show ?case by simp
  next
    case (construct t task)
    then show ?case by (simp only: construct_keeps_invariant)
  next
    case (add t now ti de dl pr member)
    then show ?case by (simp only: add_task_keeps_invariant)
  next
    case (allocate t r)
    then show ?case by (simp only: allocate_task_keeps_invariant)
  qed
  then show ?thesis by (simp add: workload_ok_def member_load_def)
qed

theorem workload_invariant_witness:
  "refs_ok example_manager \<and> workload_ok example_manager
   \<and> reachable example_manager
       (snd (allocate_task 3
          (snd (add_task example_now ''audit'' ''books'' 738900 LOW ''Mallory''
            (snd (add_task example_now ''plan'' ''sprint'' 738900 HIGH ''Bob'' example_manager))))))
   \<and> map (\<lambda>(k, m). (k, member_tasks m, workload m))
       (team_members (snd (allocate_task 3
          (snd (add_task example_now ''audit'' ''books'' 738900 LOW ''Mallory''
            (snd (add_task example_now ''plan'' ''sprint'' 738900 HIGH ''Bob'' example_manager)))))))
       = [(''Alice'', [0, 1, 2], 8), (''Bob'', [4, 3], 4)]
   \<and> list_all
       (\<lambda>(k, m). workload m
          = sum_list (map (\<lambda>r. priority_value (priority
              (objects (snd (allocate_task 3
                (snd (add_task example_now ''audit'' ''books'' 738900 LOW ''Mallory''
                  (snd (add_task example_now ''plan'' ''sprint'' 738900 HIGH ''Bob''
                    example_manager)))))) ! r))) (member_tasks m)))
       (team_members (snd (allocate_task 3
          (snd (add_task example_now ''audit'' ''books'' 738900 LOW ''Mallory''
            (snd (add_task example_now ''plan'' ''sprint'' 738900 HIGH ''Bob'' example_manager)))))))"
proof -
  define s1 where "s1 = snd (add_task example_now ''plan'' ''sprint'' 738900 HIGH ''Bob'' example_manager)"
  define s2 where "s2 = snd (add_task example_now ''audit'' ''books'' 738900 LOW ''Mallory'' s1)"
  define s3 where "s3 = snd (allocate_task 3 s2)"
  have a: "refs_ok example_manager" "workload_ok example_manager"
    by (simp_all add: refs_ok_def workload_ok_def member_load_def example_manager_def mk_task_def)
  have o2: "length (objects s2) = 6"
    by (simp add: s2_def s1_def add_task_memory example_manager_def)
  have "reachable example_manager s1"
    unfolding s1_def by (rule reachable.add) (rule reachable.start)
  then have "reachable example_manager s2"
    unfolding s2_def by (rule reachable.add)
  then have r: "reachable example_manager s3"
    unfolding s3_def by (rule reachable.allocate) (simp add: o2)
  have m2: "team_members s2
      = [(''Alice'', \<lparr>name = ''Alice'', email = ''alice@example.org'',
                      member_tasks = [0, 1, 2], workload = 8\<rparr>),
         (''Bob'', \<lparr>name = ''Bob'', email = ''bob@example.org'',
                    member_tasks = [4], workload = 3\<rparr>)]"
    by (simp add: s2_def s1_def add_task_memory example_manager_def)
  have ob2: "priority (objects s2 ! 3) = LOW" "name (snd (team_members s2 ! 1)) = ''Bob''"
    by (simp_all add: s2_def s1_def add_task_memory example_manager_def mk_task_def)
  have m3: "map (\<lambda>(k, m). (k, member_tasks m, workload m)) (team_members s3)
      = [(''Alice'', [0, 1, 2], 8), (''Bob'', [4, 3], 4)]"
    unfolding s3_def
    by (simp add: allocate_task_def m2 Let_def save_data_team_members ob2
        priority_assigned_update)
  from workload_invariant [OF a r] a r m3
  show ?thesis unfolding s3_def s2_def s1_def by simp
qed

subsection \<open>Task ids\<close>

lemma py_max_Cons: "py_max d (x # xs) = Max (set (x # xs))"
  by (simp only: py_max.simps Max.set_eq_fold)

lemma py_max_ge: "x \<in> set xs \<Longrightarrow> x \<le> py_max d xs"
proof (cases xs)
  case Nil
  assume "x \<in> set xs"
  with Nil show ?thesis by simp
next
  case (Cons y ys)
  assume "x \<in> set xs"
  then show ?thesis unfolding Cons py_max_Cons by (intro Max_ge) simp_all
qed

lemma py_max_snoc: "py_max 0 (xs @ [py_max 0 xs + 1]) = py_max 0 xs + 1"
  by (cases xs) simp_all

lemma py_max_nonneg: "list_all (\<lambda>x. 0 < x) xs \<Longrightarrow> 0 \<le> py_max 0 xs"
proof (cases xs)
  case Nil
  then show ?thesis by simp
next
  case (Cons y ys)
  assume "list_all (\<lambda>x. 0 < x) xs"
  then have "0 < y" using Cons by simp
  moreover have "y \<le> py_max 0 xs" by (rule py_max_ge) (simp add: Cons)
  ultimately show ?thesis by simp
qed

lemma py_max_run:
  "py_max 0 (xs @ map (\<lambda>j. py_max 0 xs + 1 + int j) [0..<i]) = py_max 0 xs + int i"
proof (induction i)
  case 0
  show ?case by simp
next
  case (Suc i)
  have L: "xs @ map (\<lambda>j. py_max 0 xs + 1 + int j) [0..<Suc i]
      = (xs @ map (\<lambda>j. py_max 0 xs + 1 + int j) [0..<i])
          @ [py_max 0 (xs @ map (\<lambda>j. py_max 0 xs + 1 + int j) [0..<i]) + 1]"
    by (simp add: Suc.IH)
  have "py_max 0 (xs @ map (\<lambda>j. py_max 0 xs + 1 + int j) [0..<Suc i])
      = py_max 0 (xs @ map (\<lambda>j. py_max 0 xs + 1 + int j) [0..<i]) + 1"
    by (subst L) (rule py_max_snoc)
  also have "\<dots> = py_max 0 xs + int i + 1" by (simp only: Suc.IH)
  also have "\<dots> = py_max 0 xs + int (Suc i)" by simp
  finally show ?case .
qed

lemma members_ok_save_data: "members_ok (snd (save_data s)) = members_ok s"
  by (simp add: members_ok_def save_data_team_members)

lemma ids_distinct_save_data: "ids_distinct (snd (save_data s)) = ids_distinct s"
  by (simp add: ids_distinct_def save_data_objects save_data_tasks)

lemma ids_distinct_task_ids: "ids_distinct s = distinct (task_ids s)"
  by (simp add: ids_distinct_def task_ids_def)

lemma task_ids_add_task:
  assumes "list_all (\<lambda>r. r < length (objects s)) (tasks s)"
  shows "task_ids (snd (add_task now ti de dl pr member s))
    = task_ids s @ [py_max 0 (task_ids s) + 1]"
proof -
  have "map (\<lambda>r. task_id ((objects s @ [t]) ! r)) (tasks s)
      = map (\<lambda>r. task_id (objects s ! r)) (tasks s)" for t
    by (rule map_cong [OF refl]) (use assms in \<open>simp add: list_all_iff nth_append\<close>)
  then show ?thesis
    by (simp add: task_ids_def [of "snd (add_task now ti de dl pr member s)"] add_task_memory)
      (simp add: task_ids_def)
qed

lemma members_ok_add_task:
  assumes "members_ok s"
  shows "members_ok (snd (add_task now ti de dl pr member s))"
proof -
  have "list_all (\<lambda>(k, m). name m = k)
      (dict_modify member
        (\<lambda>m. m\<lparr>member_tasks := member_tasks m @ [length (objects s)],
                workload := workload m + priority_value pr\<rparr>)
        (team_members s))"
    by (rule list_all_dict_modify) (use assms in \<open>simp_all add: members_ok_def\<close>)
  then show ?thesis
    using assms by (simp add: members_ok_def add_task_memory dict_modify_keys)
qed

lemma ids_distinct_add_task:
  assumes "list_all (\<lambda>r. r < length (objects s)) (tasks s)" and "ids_distinct s"
  shows "ids_distinct (snd (add_task now ti de dl pr member s))"
proof -
  have "py_max 0 (task_ids s) + 1 \<notin> set (task_ids s)"
  proof
    assume "py_max 0 (task_ids s) + 1 \<in> set (task_ids s)"
    then have "py_max 0 (task_ids s) + 1 \<le> py_max 0 (task_ids s)" by (rule py_max_ge)
    then show False by simp
  qed
  then show ?thesis
    using assms(2) by (simp add: ids_distinct_task_ids task_ids_add_task [OF assms(1)])
qed

lemma add_task_returns:
  assumes "dict_contains member (team_members s)" and "members_ok s" and "ids_distinct s"
    and "list_all (\<lambda>r. r < length (objects s)) (tasks s)"
  shows "fst (add_task now ti de dl pr member s) = Inr (length (objects s))"
proof -
  from assms(1) obtain s3 where eq: "add_task now ti de dl pr member s
      = (case save_data s3 of (Inl e, s4) \<Rightarrow> (Inl e, s4)
         | (Inr u, s4) \<Rightarrow> (Inr (length (objects s)), s4))"
    by (simp add: add_task_def Let_def)
  then have snd: "snd (add_task now ti de dl pr member s) = snd (save_data s3)"
    by (simp add: snd_case_result)
  have "members_ok s3"
    using members_ok_add_task [OF assms(2), of now ti de dl pr member]
    by (simp add: snd members_ok_save_data)
  moreover have "ids_distinct s3"
    using ids_distinct_add_task [OF assms(4,3), of now ti de dl pr member]
    by (simp add: snd ids_distinct_save_data)
  ultimately show ?thesis by (simp add: eq save_data_ok)
qed

lemma upt_Suc_map:
  "map f [0..<Suc n] = f 0 # map (\<lambda>i. f (Suc i)) [0..<n]"
proof -
  have "[0..<Suc n] = 0 # map Suc [0..<n]"
    by (simp only: map_Suc_upt upt_conv_Cons [of 0 "Suc n"] zero_less_Suc)
  then show ?thesis by (simp only: list.map map_map comp_def)
qed

lemma add_tasks_run:
  assumes "list_all (\<lambda>r. r < length (objects s)) (tasks s)" and "members_ok s"
    and "ids_distinct s"
    and "list_all (\<lambda>(now, ti, de, dl, pr, member). dict_contains member (team_members s)) calls"
  shows "\<exists>rs ext. fst (add_tasks calls s) = Inr rs
    \<and> objects (snd (add_tasks calls s)) = objects s @ ext
    \<and> map (\<lambda>r. task_id (objects (snd (add_tasks calls s)) ! r)) rs
        = map (\<lambda>i. py_max 0 (task_ids s) + 1 + int i) [0..<length calls]"
  using assms
proof (induction calls arbitrary: s)
  case Nil
  show ?case by simp
next
  case (Cons c calls)
  obtain now ti de dl pr member where c: "c = (now, ti, de, dl, pr, member)"
    by (cases c) auto
  define s1 where "s1 = snd (add_task now ti de dl pr member s)"
  define M where "M = py_max 0 (task_ids s)"
  define n where "n = length (objects s)"
  from Cons.prems(4) have mem: "dict_contains member (team_members s)"
    and rest: "list_all (\<lambda>(now, ti, de, dl, pr, member). dict_contains member (team_members s)) calls"
    by (simp_all add: c)
  have ret: "fst (add_task now ti de dl pr member s) = Inr n"
    unfolding n_def by (rule add_task_returns [OF mem Cons.prems(2,3,1)])
  then have step: "add_task now ti de dl pr member s = (Inr n, s1)"
    by (simp add: s1_def prod_eq_iff)
  have o1: "objects s1 = objects s @ [\<lparr>task_id = M + 1, title = ti, description = de,
      deadline = dl, priority = pr, assigned_to = member, status = ''Not Started'',
      created_at = now\<rparr>]"
    by (simp add: s1_def add_task_memory M_def)
  have t1: "list_all (\<lambda>r. r < length (objects s1)) (tasks s1)"
    using Cons.prems(1) by (auto simp: s1_def add_task_memory list_all_iff)
  have m1: "members_ok s1" unfolding s1_def by (rule members_ok_add_task [OF Cons.prems(2)])
  have d1: "ids_distinct s1"
    unfolding s1_def by (rule ids_distinct_add_task [OF Cons.prems(1,3)])
  have c1: "list_all (\<lambda>(now, ti, de, dl, pr, member). dict_contains member (team_members s1)) calls"
    using rest by (simp add: s1_def add_task_memory dict_contains_dict_modify)
  have ids1: "task_ids s1 = task_ids s @ [M + 1]"
    unfolding s1_def M_def by (rule task_ids_add_task [OF Cons.prems(1)])
  have M1: "py_max 0 (task_ids s1) = M + 1" unfolding ids1 M_def by (rule py_max_snoc)
  from Cons.IH [OF t1 m1 d1 c1]
  obtain rs ext where r: "fst (add_tasks calls s1) = Inr rs"
    and o: "objects (snd (add_tasks calls s1)) = objects s1 @ ext"
    and f: "map (\<lambda>r. task_id (objects (snd (add_tasks calls s1)) ! r)) rs
        = map (\<lambda>i. M + 1 + 1 + int i) [0..<length calls]"
    unfolding M1 by blast
  from r obtain s2 where e: "add_tasks calls s1 = (Inr rs, s2)"
    by (cases "add_tasks calls s1") auto
  have "add_tasks (c # calls) s = (Inr (n # rs), s2)"
    by (simp add: c step e)
  then have run: "add_tasks (c # calls) s = (Inr (n # rs), snd (add_tasks calls s1))"
    by (simp add: e)
  have "task_id (objects (snd (add_tasks calls s1)) ! n) = M + 1"
    by (simp add: o o1 n_def)
  then have "map (\<lambda>r. task_id (objects (snd (add_tasks (c # calls) s)) ! r)) (n # rs)
      = map (\<lambda>i. M + 1 + int i) [0..<length (c # calls)]"
    unfolding run using f by (simp add: upt_Suc_map del: upt_Suc)
  moreover have "objects (snd (add_tasks (c # calls) s))
      = objects s @ ([\<lparr>task_id = M + 1, title = ti, description = de,
      deadline = dl, priority = pr, assigned_to = member, status = ''Not Started'',
      created_at = now\<rparr>] @ ext)"
    unfolding run by (simp add: o o1)
  moreover have "fst (add_tasks (c # calls) s) = Inr (n # rs)" unfolding run by simp
  ultimately show ?case unfolding M_def by blast
qed

lemma issued_ids_formula:
  assumes "refs_ok s" and "members_ok s" and "ids_distinct s"
    and "list_all (\<lambda>(now, ti, de, dl, pr, member). dict_contains member (team_members s)) calls"
  shows "(\<exists>rs. fst (add_tasks calls s) = Inr rs \<and> length rs = length calls)
    \<and> issued_ids calls s = map (\<lambda>i. py_max 0 (task_ids s) + 1 + int i) [0..<length calls]"
proof -
  from assms(1) have t: "list_all (\<lambda>r. r < length (objects s)) (tasks s)"
    by (simp add: refs_ok_def)
  from add_tasks_run [OF t assms(2,3,4)]
  obtain rs where r: "fst (add_tasks calls s) = Inr rs"
    and f: "map (\<lambda>r. task_id (objects (snd (add_tasks calls s)) ! r)) rs
        = map (\<lambda>i. py_max 0 (task_ids s) + 1 + int i) [0..<length calls]"
    by blast
  from f have "length rs = length calls" by (metis length_map length_upt minus_nat.diff_0)
  moreover from r obtain s2 where e: "add_tasks calls s = (Inr rs, s2)"
    by (cases "add_tasks calls s") auto
  then have "issued_ids calls s = map (\<lambda>r. task_id (objects (snd (add_tasks calls s)) ! r)) rs"
    by (simp add: issued_ids_def)
  ultimately show ?thesis using r f by simp
qed

text \<open>
  Claim C3. Let the manager be well-formed (addresses exist, member names and task ids
  are distinct), and let every call of a sequence of \<^verbatim>\<open>add_task\<close> calls name a
  registered member. Then every call returns, and the id of the task it returns is the
  largest id of the task list at that moment plus 1, or 1 when the list is empty; it is
  strictly greater than every id present before and every id issued earlier in the run,
  and it is positive when the ids present at the start are. Started on an empty task
  list, the run issues 1, 2, 3 and so on.
\<close>

theorem add_task_ids_increase:
  assumes "refs_ok s" and "members_ok s" and "ids_distinct s"
    and "list_all (\<lambda>(now, ti, de, dl, pr, member). dict_contains member (team_members s)) calls"
  shows "(\<exists>rs. fst (add_tasks calls s) = Inr rs \<and> length rs = length calls)
    \<and> length (issued_ids calls s) = length calls
    \<and> (\<forall>i < length calls.
          issued_ids calls s ! i = py_max 0 (task_ids s @ take i (issued_ids calls s)) + 1
          \<and> (\<forall>x \<in> set (task_ids s @ take i (issued_ids calls s)). x < issued_ids calls s ! i)
          \<and> (list_all (\<lambda>x. 0 < x) (task_ids s) \<longrightarrow> 0 < issued_ids calls s ! i))
    \<and> (tasks s = [] \<longrightarrow> issued_ids calls s = map (\<lambda>i. 1 + int i) [0..<length calls])"
proof -
  define M where "M = py_max 0 (task_ids s)"
  define ids where "ids = issued_ids calls s"
  from issued_ids_formula [OF assms]
  have ret: "\<exists>rs. fst (add_tasks calls s) = Inr rs \<and> length rs = length calls"
    and f: "ids = map (\<lambda>i. M + 1 + int i) [0..<length calls]"
    unfolding M_def ids_def by simp_all
  have len: "length ids = length calls" unfolding f by simp
  have step: "ids ! i = py_max 0 (task_ids s @ take i ids) + 1
      \<and> (\<forall>x \<in> set (task_ids s @ take i ids). x < ids ! i)
      \<and> (list_all (\<lambda>x. 0 < x) (task_ids s) \<longrightarrow> 0 < ids ! i)"
    if i: "i < length calls" for i
  proof -
    have nth: "ids ! i = M + 1 + int i" unfolding f using i by simp
    have "take i ids = map (\<lambda>i. M + 1 + int i) [0..<i]"
      unfolding f using i by (simp add: take_map)
    then have mx: "py_max 0 (task_ids s @ take i ids) = M + int i"
      unfolding M_def by (simp only: py_max_run)
    have "x < ids ! i" if "x \<in> set (task_ids s @ take i ids)" for x
    proof -
      from that have "x \<le> py_max 0 (task_ids s @ take i ids)" by (rule py_max_ge)
      then show ?thesis unfolding mx nth by simp
    qed
    moreover have "0 < ids ! i" if "list_all (\<lambda>x. 0 < x) (task_ids s)"
      using py_max_nonneg [OF that] unfolding nth M_def by simp
    ultimately show ?thesis unfolding mx nth by simp
  qed
  have "ids = map (\<lambda>i. 1 + int i) [0..<length calls]" if "tasks s = []"
    unfolding f M_def using that by (simp add: task_ids_def)
  with ret len step show ?thesis unfolding ids_def by blast
qed

theorem add_task_ids_increase_witness:
  "refs_ok example_manager \<and> members_ok example_manager \<and> ids_distinct example_manager
   \<and> list_all (\<lambda>(now, ti, de, dl, pr, member). dict_contains member (team_members example_manager))
       [(example_now, ''plan'', ''sprint'', 738900, HIGH, ''Bob''),
        (example_now, ''demo'', ''slides'', 738901, LOW, ''Alice'')]
   \<and> task_ids example_manager = [1, 2, 3]
   \<and> length (issued_ids
       [(example_now, ''plan'', ''sprint'', 738900, HIGH, ''Bob''),
        (example_now, ''demo'', ''slides'', 738901, LOW, ''Alice'')] example_manager) = 2
   \<and> issued_ids
       [(example_now, ''plan'', ''sprint'', 738900, HIGH, ''Bob''),
        (example_now, ''demo'', ''slides'', 738901, LOW, ''Alice'')] example_manager ! 0 = 4
   \<and> issued_ids
       [(example_now, ''plan'', ''sprint'', 738900, HIGH, ''Bob''),
        (example_now, ''demo'', ''slides'', 738901, LOW, ''Alice'')] example_manager ! 1 = 5
   \<and> issued_ids
       [(example_now, ''plan'', ''sprint'', 738900, HIGH, ''Bob''),
        (example_now, ''demo'', ''slides'', 738901, LOW, ''Alice'')] team_manager = [1, 2]"
proof -
  define calls :: "add_task_call list" where
    "calls = [(example_now, ''plan'', ''sprint'', 738900, HIGH, ''Bob''),
        (example_now, ''demo'', ''slides'', 738901, LOW, ''Alice'')]"
  have a: "refs_ok example_manager" "members_ok example_manager" "ids_distinct example_manager"
    by (simp_all add: refs_ok_def members_ok_def ids_distinct_def example_manager_def mk_task_def)
  have b: "list_all (\<lambda>(now, ti, de, dl, pr, member).
      dict_contains member (team_members example_manager)) calls"
    by (simp add: calls_def dict_contains_def example_manager_def)
  have c: "task_ids example_manager = [1, 2, 3]"
    by (simp add: task_ids_def example_manager_def mk_task_def)
  have a': "refs_ok team_manager" "members_ok team_manager" "ids_distinct team_manager"
    "tasks team_manager = []"
    by (simp_all add: refs_ok_def members_ok_def ids_distinct_def team_manager_def
        empty_manager_def)
  have b': "list_all (\<lambda>(now, ti, de, dl, pr, member).
      dict_contains member (team_members team_manager)) calls"
    by (simp add: calls_def dict_contains_def team_manager_def empty_manager_def)
  have n: "length calls = 2" by (simp add: calls_def)
  note t = add_task_ids_increase [OF a b, unfolded n c]
  from t have len: "length (issued_ids calls example_manager) = 2" by simp
  from t have i0: "issued_ids calls example_manager ! 0 = 4" by simp
  have "take 1 (issued_ids calls example_manager) = [4]"
    using len i0 take_Suc_conv_app_nth [of 0 "issued_ids calls example_manager"] by simp
  moreover from t have "issued_ids calls example_manager ! 1
      = py_max 0 ([1, 2, 3] @ take 1 (issued_ids calls example_manager)) + 1"
    by simp
  ultimately have i1: "issued_ids calls example_manager ! 1 = 5" by simp
  from add_task_ids_increase [OF a'(1,2,3) b', unfolded n] a'(4)
  have "issued_ids calls team_manager = [1, 2]"
    by (simp add: upt_rec [of 0] upt_rec [of 1] numeral_2_eq_2)
  with a b c len i0 i1 show ?thesis unfolding calls_def by simp
qed

subsection \<open>Saving and reloading\<close>

text \<open>The ISO text of 2024-01-10, computed step by step.\<close>

lemma year_from_example: "year_from 738895 2019 = 2024"
proof -
  have d: "days_before_year 2020 = 737424" "days_before_year 2021 = 737790"
    "days_before_year 2022 = 738155" "days_before_year 2023 = 738520"
    "days_before_year 2024 = 738885" "days_before_year 2025 = 739251"
    by (simp_all add: days_before_year_def)
  have s: "Suc 2019 = 2020" "Suc 2020 = 2021" "Suc 2021 = 2022" "Suc 2022 = 2023"
    "Suc 2023 = 2024" "Suc 2024 = 2025"
    by simp_all
  have "year_from 738895 2024 = 2024" by (subst year_from.simps) (simp only: s d, simp)
  then have "year_from 738895 2023 = 2024"
    by (subst year_from.simps) (simp only: s d, simp)
  then have "year_from 738895 2022 = 2024"
    by (subst year_from.simps) (simp only: s d, simp)
  then have "year_from 738895 2021 = 2024"
    by (subst year_from.simps) (simp only: s d, simp)
  then have "year_from 738895 2020 = 2024"
    by (subst year_from.simps) (simp only: s d, simp)
  then show ?thesis
    by (subst year_from.simps) (simp only: s d, simp)
qed

lemma ord2ymd_example: "ord2ymd 738895 = (2024, 1, 10)"
proof -
  have y: "year_from 738895 ((738895 - 1) div 366 + 1) = 2024"
    using year_from_example by simp
  have l: "is_leap 2024" by (simp add: is_leap_def)
  have m: "month_from 2024 10 (Suc 0) = Suc 0"
    by (subst month_from.simps) (simp add: days_before_month_def)
  have b: "days_before_year 2024 = 738885" by (simp add: days_before_year_def)
  have c: "days_before_month 2024 (Suc 0) = 0" by (simp add: days_before_month_def)
  show ?thesis
    unfolding ord2ymd_def Let_def y b by (simp add: m c)
qed

lemma pad_num_2: "pad_num 2 n = [digit_char (n div 10 mod 10), digit_char (n mod 10)]"
proof -
  have "pad_num (Suc (Suc 0)) n = [digit_char (n div 10 mod 10), digit_char (n mod 10)]"
    by simp
  then show ?thesis by (simp only: numeral_2_eq_2)
qed

lemma pad_num_4:
  "pad_num 4 n = [digit_char (n div 1000 mod 10), digit_char (n div 100 mod 10),
     digit_char (n div 10 mod 10), digit_char (n mod 10)]"
proof -
  have "pad_num (Suc (Suc (Suc (Suc 0)))) n
      = [digit_char (n div 1000 mod 10), digit_char (n div 100 mod 10),
         digit_char (n div 10 mod 10), digit_char (n mod 10)]"
    by (simp add: div_mult2_eq [symmetric])
  moreover have "(4::nat) = Suc (Suc (Suc (Suc 0)))" by simp
  ultimately show ?thesis by (simp only:)
qed

lemma digit_char_examples:
  "digit_char 0 = CHR ''0''" "digit_char (Suc 0) = CHR ''1''" "digit_char 2 = CHR ''2''"
  "digit_char 4 = CHR ''4''"
  by (simp_all add: digit_char_def char_of_def bit_0)

lemma date_isoformat_example: "date_isoformat 738895 = ''2024-01-10''"
  by (simp add: date_isoformat_def ord2ymd_example pad_num_2 pad_num_4 digit_char_examples)

lemma row_to_task_roundtrip:
  assumes "valid_date (deadline t)" and "valid_datetime (created_at t)"
  shows "row_to_task (task_to_row t) = Inr t"
  using assms
  by (simp add: task_to_row_def date_roundtrip priority_roundtrip datetime_roundtrip)

lemma load_tasks_rows:
  assumes "list_all (\<lambda>t. valid_date (deadline t) \<and> valid_datetime (created_at t)) ts"
  shows "load_tasks (map task_to_row ts) s
    = (Inr (), s\<lparr>objects := objects s @ ts,
                 tasks := tasks s @ [length (objects s)..<length (objects s) + length ts]\<rparr>)"
  using assms
proof (induction ts arbitrary: s)
  case Nil
  show ?case by simp
next
  case (Cons t ts)
  from Cons.prems have t: "row_to_task (task_to_row t) = Inr t"
    and ts: "list_all (\<lambda>t. valid_date (deadline t) \<and> valid_datetime (created_at t)) ts"
    by (simp_all add: row_to_task_roundtrip)
  have U: "[length (objects s)..<length (objects s) + length (t # ts)]
      = length (objects s) # [Suc (length (objects s))..<Suc (length (objects s)) + length ts]"
    using upt_conv_Cons [of "length (objects s)" "length (objects s) + length (t # ts)"]
    by (simp del: upt_Suc)
  show ?case
    unfolding U by (simp add: t Cons.IH [OF ts] del: upt_Suc)
qed

lemma load_members_rows:
  assumes "distinct (map fst rows)"
    and "\<forall>r \<in> set rows. map_of (team_members s) (fst r) = None"
  shows "load_members rows s
    = s\<lparr>team_members := team_members s
          @ map (\<lambda>(r0, r1, r2). (r0, \<lparr>name = r0, email = r1, member_tasks = [], workload = r2\<rparr>))
              rows\<rparr>"
  using assms
proof (induction rows arbitrary: s)
  case Nil
  show ?case by simp
next
  case (Cons row rows)
  obtain r0 r1 r2 where row: "row = (r0, r1, r2)" by (cases row) auto
  define s1 where "s1 = s\<lparr>team_members := team_members s
      @ [(r0, \<lparr>name = r0, email = r1, member_tasks = [], workload = r2\<rparr>)]\<rparr>"
  from Cons.prems(2) have none: "map_of (team_members s) r0 = None" by (simp add: row)
  have d: "distinct (map fst rows)" using Cons.prems(1) by simp
  have "\<forall>r \<in> set rows. map_of (team_members s1) (fst r) = None"
  proof
    fix r assume r: "r \<in> set rows"
    with Cons.prems(1) have "fst r \<noteq> r0" by (auto simp: row)
    moreover from r Cons.prems(2) have "map_of (team_members s) (fst r) = None" by simp
    ultimately show "map_of (team_members s1) (fst r) = None"
      by (simp add: s1_def map_of_eq_None_iff)
  qed
  from Cons.IH [OF d this] show ?case
    by (simp add: row dict_set_new [OF none] s1_def)
qed

lemma nth_fresh_objects:
  "map (\<lambda>r. (objs @ ts) ! r) [length objs..<length objs + length ts] = ts"
  by (rule nth_equalityI) (simp_all add: nth_append)

text \<open>Sorting the images of a list sorts the list by the composed key.\<close>

lemma insort_key_of_map:
  "insort_key f (g x) (map g xs) = map g (insort_key (\<lambda>y. f (g y)) x xs)"
  by (induction xs) simp_all

lemma sort_key_of_map:
  "sort_key f (map g xs) = map g (sort_key (\<lambda>y. f (g y)) xs)"
  by (induction xs) (simp_all add: insort_key_of_map)

text \<open>
  Saving a well-formed manager and loading what was saved: the tasks come back with
  their fields, in ascending \<open>id\<close>; the members come back in their order with name,
  email and workload, and with an empty task list.
\<close>

lemma save_then_load:
  assumes "members_ok s" and "ids_distinct s"
    and "list_all (\<lambda>r. valid_date (deadline (objects s ! r))
            \<and> valid_datetime (created_at (objects s ! r))) (tasks s)"
  shows "save_data s
      = (Inr (), s\<lparr>db_tasks := map (\<lambda>r. task_to_row (objects s ! r)) (tasks s),
                   db_team_members := map (\<lambda>(k, m). member_to_row m) (team_members s)\<rparr>)"
    and "fst (load_data (snd (save_data s))) = Inr ()"
    and "map (\<lambda>r. objects (snd (load_data (snd (save_data s)))) ! r)
           (tasks (snd (load_data (snd (save_data s)))))
         = sort_key task_id (map (\<lambda>r. objects s ! r) (tasks s))"
    and "team_members (snd (load_data (snd (save_data s))))
         = map (\<lambda>(k, m). (k, m\<lparr>member_tasks := []\<rparr>)) (team_members s)"
proof -
  define ts where "ts = sort_key task_id (map (\<lambda>r. objects s ! r) (tasks s))"
  define rows where "rows = map (\<lambda>(k, m). member_to_row m) (team_members s)"
  define s1 where "s1 = s\<lparr>db_tasks := map (\<lambda>r. task_to_row (objects s ! r)) (tasks s),
      db_team_members := rows\<rparr>"
  define s2 where "s2 = s1\<lparr>tasks := [], team_members := [],
      objects := objects s @ ts, tasks := [length (objects s)..<length (objects s) + length ts]\<rparr>"
  show save: "save_data s
      = (Inr (), s\<lparr>db_tasks := map (\<lambda>r. task_to_row (objects s ! r)) (tasks s),
                   db_team_members := map (\<lambda>(k, m). member_to_row m) (team_members s)\<rparr>)"
    by (rule save_data_ok [OF assms(1,2)])
  then have s1: "snd (save_data s) = s1"
    by (simp add: s1_def rows_def)
  have "map (\<lambda>r. task_to_row (objects s ! r)) (tasks s)
      = map task_to_row (map (\<lambda>r. objects s ! r) (tasks s))"
    by simp
  then have "select_tasks s1
      = sort_key (\<lambda>row. fst row) (map task_to_row (map (\<lambda>r. objects s ! r) (tasks s)))"
    by (simp only: select_tasks_def s1_def) simp
  also have "\<dots> = map task_to_row (sort_key (\<lambda>t. fst (task_to_row t))
      (map (\<lambda>r. objects s ! r) (tasks s)))"
    by (rule sort_key_of_map)
  also have "(\<lambda>t. fst (task_to_row t)) = task_id"
    by (simp add: task_to_row_def fun_eq_iff)
  finally have sel: "select_tasks s1 = map task_to_row ts"
    by (simp only: ts_def)
  have "set ts = (\<lambda>r. objects s ! r) ` set (tasks s)"
    by (simp add: ts_def)
  then have valid: "list_all (\<lambda>t. valid_date (deadline t) \<and> valid_datetime (created_at t)) ts"
    using assms(3) by (simp add: list_all_iff)
  have lt: "load_tasks (select_tasks s1) (s1\<lparr>tasks := [], team_members := []\<rparr>) = (Inr (), s2)"
    unfolding sel
    using load_tasks_rows [OF valid, of "s1\<lparr>tasks := [], team_members := []\<rparr>"]
    by (simp add: s1_def s2_def)
  have keys: "map fst rows = map fst (team_members s)"
    unfolding rows_def by (rule member_rows_keys) (use assms(1) in \<open>simp add: members_ok_def\<close>)
  then have d: "distinct (map fst rows)" using assms(1) by (simp add: members_ok_def)
  have e: "\<forall>r \<in> set rows. map_of (team_members s2) (fst r) = None" by (simp add: s2_def)
  have load: "load_data s1 = (Inr (), load_members rows s2)"
    by (simp add: load_data_def lt select_team_members_def) (simp add: s2_def s1_def)
  have mem: "map (\<lambda>(r0, r1, r2). (r0, \<lparr>name = r0, email = r1, member_tasks = [], workload = r2\<rparr>))
        rows
      = map (\<lambda>(k, m). (k, m\<lparr>member_tasks := []\<rparr>)) (team_members s)"
    unfolding rows_def
    using assms(1) by (auto simp: members_ok_def list_all_iff member_to_row_def)
  show "fst (load_data (snd (save_data s))) = Inr ()" by (simp add: s1 load)
  show "map (\<lambda>r. objects (snd (load_data (snd (save_data s)))) ! r)
           (tasks (snd (load_data (snd (save_data s)))))
         = sort_key task_id (map (\<lambda>r. objects s ! r) (tasks s))"
    unfolding s1 load ts_def [symmetric]
    by (simp only: load_members_rows [OF d e] snd_conv) (simp add: s2_def nth_fresh_objects)
  show "team_members (snd (load_data (snd (save_data s))))
         = map (\<lambda>(k, m). (k, m\<lparr>member_tasks := []\<rparr>)) (team_members s)"
    unfolding s1 load
    by (simp only: load_members_rows [OF d e] snd_conv mem) (simp add: s2_def)
qed

text \<open>The example manager can be saved and reloaded.\<close>

lemma example_manager_saves:
  "members_ok example_manager" "ids_distinct example_manager"
  "list_all (\<lambda>r. valid_date (deadline (objects example_manager ! r))
      \<and> valid_datetime (created_at (objects example_manager ! r))) (tasks example_manager)"
  by (simp_all add: members_ok_def ids_distinct_def example_manager_def mk_task_def
      valid_date_def valid_datetime_def MAXORDINAL_def)

text \<open>
  The task list need not be in the order of the ids (\<^verbatim>\<open>load_data\<close> appends whatever
  rows the table holds, and \<^verbatim>\<open>add_task\<close> gives a task that follows ids 5 and 2 the
  id 6). With the task of id 2 before the task of id 1, the reload returns id 1 first.
\<close>

lemma load_data_id_order:
  "map (\<lambda>r. task_id (objects (example_manager\<lparr>tasks := [1, 0]\<rparr>) ! r))
     (tasks (example_manager\<lparr>tasks := [1, 0]\<rparr>)) = [2, 1]
   \<and> map (\<lambda>r. task_id (objects (snd (load_data (snd (save_data
            (example_manager\<lparr>tasks := [1, 0]\<rparr>))))) ! r))
       (tasks (snd (load_data (snd (save_data (example_manager\<lparr>tasks := [1, 0]\<rparr>))))))
     = [1, 2]"
proof -
  define s where "s = example_manager\<lparr>tasks := [1, 0]\<rparr>"
  have a: "members_ok s" "ids_distinct s"
    "list_all (\<lambda>r. valid_date (deadline (objects s ! r))
      \<and> valid_datetime (created_at (objects s ! r))) (tasks s)"
    by (simp_all add: s_def members_ok_def ids_distinct_def example_manager_def mk_task_def
        valid_date_def valid_datetime_def MAXORDINAL_def)
  have "map task_id (map (\<lambda>r. objects (snd (load_data (snd (save_data s)))) ! r)
      (tasks (snd (load_data (snd (save_data s)))))) = [1, 2]"
    unfolding save_then_load(3) [OF a]
    by (simp add: s_def example_manager_def mk_task_def)
  then show ?thesis
    by (simp add: s_def [symmetric] comp_def) (simp add: s_def example_manager_def mk_task_def)
qed

text \<open>
  Claim C4 fails on the code. The claim: saving the full task and team-member
  collections and then reloading them reproduces identical field values for every
  \<^verbatim>\<open>Task\<close> and \<^verbatim>\<open>TeamMember\<close>. In the example Alice holds the tasks 1, 2 and 3 and
  her workload is 8, the sum of their priority values. Saving succeeds and reloading
  succeeds, and the three tasks come back with every field as it was. Alice and Bob
  come back with their names, emails and workloads, but Alice's task list comes back
  empty: \<^verbatim>\<open>load_data\<close> constructs every \<^verbatim>\<open>TeamMember\<close> with the default task list
  and never appends the loaded tasks to the list of the member they are assigned to.
  After the reload her workload, still 8, is no longer the sum over her task list, and
  her to-do list is empty.
\<close>

theorem load_data_loses_member_tasks:
  "fst (save_data example_manager) = Inr ()
   \<and> fst (load_data (snd (save_data example_manager))) = Inr ()
   \<and> map (\<lambda>r. objects (snd (load_data (snd (save_data example_manager)))) ! r)
         (tasks (snd (load_data (snd (save_data example_manager)))))
       = map (\<lambda>r. objects example_manager ! r) (tasks example_manager)
   \<and> map (\<lambda>(k, m). (k, name m, email m, member_tasks m, workload m))
         (team_members example_manager)
       = [(''Alice'', ''Alice'', ''alice@example.org'', [0, 1, 2], 8),
          (''Bob'', ''Bob'', ''bob@example.org'', [], 0)]
   \<and> map (\<lambda>(k, m). (k, name m, email m, member_tasks m, workload m))
         (team_members (snd (load_data (snd (save_data example_manager)))))
       = [(''Alice'', ''Alice'', ''alice@example.org'', [], 8),
          (''Bob'', ''Bob'', ''bob@example.org'', [], 0)]
   \<and> workload_ok example_manager
   \<and> \<not> workload_ok (snd (load_data (snd (save_data example_manager))))
   \<and> generate_to_do_list ''Alice'' example_manager = [2, 1, 0]
   \<and> generate_to_do_list ''Alice'' (snd (load_data (snd (save_data example_manager)))) = []"
proof -
  note r = save_then_load [OF example_manager_saves]
  have a: "fst (save_data example_manager) = Inr ()" by (simp add: r(1))
  have b: "map (\<lambda>r. objects (snd (load_data (snd (save_data example_manager)))) ! r)
         (tasks (snd (load_data (snd (save_data example_manager)))))
       = map (\<lambda>r. objects example_manager ! r) (tasks example_manager)"
    unfolding r(3) by (simp add: example_manager_def mk_task_def)
  have c: "map (\<lambda>(k, m). (k, name m, email m, member_tasks m, workload m))
         (team_members example_manager)
       = [(''Alice'', ''Alice'', ''alice@example.org'', [0, 1, 2], 8),
          (''Bob'', ''Bob'', ''bob@example.org'', [], 0)]"
    by (simp add: example_manager_def)
  have m: "team_members (snd (load_data (snd (save_data example_manager))))
       = [(''Alice'', \<lparr>name = ''Alice'', email = ''alice@example.org'',
                       member_tasks = [], workload = 8\<rparr>),
          (''Bob'', \<lparr>name = ''Bob'', email = ''bob@example.org'',
                     member_tasks = [], workload = 0\<rparr>)]"
    unfolding r(4) by (simp add: example_manager_def)
  have d: "map (\<lambda>(k, m). (k, name m, email m, member_tasks m, workload m))
         (team_members (snd (load_data (snd (save_data example_manager)))))
       = [(''Alice'', ''Alice'', ''alice@example.org'', [], 8),
          (''Bob'', ''Bob'', ''bob@example.org'', [], 0)]"
    unfolding m by simp
  have e: "workload_ok example_manager"
    by (simp add: workload_ok_def member_load_def example_manager_def mk_task_def)
  have f: "\<not> workload_ok (snd (load_data (snd (save_data example_manager))))"
    unfolding workload_ok_def m by (simp add: member_load_def)
  have g: "generate_to_do_list ''Alice'' example_manager = [2, 1, 0]"
    by (simp add: generate_to_do_list_def example_manager_def py_sorted_reverse_def
        todo_key_def mk_task_def)
  have h: "generate_to_do_list ''Alice'' (snd (load_data (snd (save_data example_manager))))
      = []"
    unfolding generate_to_do_list_def m by (simp add: py_sorted_reverse_def)
  from a r(2) b c d e f g h show ?thesis by (simp only: simp_thms)
qed

end
